theory Spec2Isabelle
  imports Main "HOL-Library.Product_Lexorder" "HOL-Library.Multiset"
begin

section \<open>Timestamps\<close>

text \<open>
  A naive \<^verbatim>\<open>datetime.datetime\<close> value: the seven fields that Python stores and compares.
  Python compares two naive datetimes as the tuples
  \<^verbatim>\<open>(year, month, day, hour, minute, second, microsecond)\<close>, lexicographically.
\<close>

datatype datetime =
  Datetime (year: nat) (month: nat) (day: nat) (hour: nat) (minute: nat) (second: nat)
    (microsecond: nat)

fun dt_key :: "datetime \<Rightarrow> nat \<times> nat \<times> nat \<times> nat \<times> nat \<times> nat \<times> nat" where
  "dt_key (Datetime y mo d h mi s us) = (y, mo, d, h, mi, s, us)"

instantiation datetime :: linorder
begin

definition less_eq_datetime :: "datetime \<Rightarrow> datetime \<Rightarrow> bool" where
  "less_eq_datetime a b \<longleftrightarrow> dt_key a \<le> dt_key b"

definition less_datetime :: "datetime \<Rightarrow> datetime \<Rightarrow> bool" where
  "less_datetime a b \<longleftrightarrow> dt_key a < dt_key b"

instance
proof
  fix x y z :: datetime
  show "(x < y) = (x \<le> y \<and> \<not> y \<le> x)"
    unfolding less_eq_datetime_def less_datetime_def by (rule less_le_not_le)
  show "x \<le> x"
    unfolding less_eq_datetime_def by (rule order_refl)
  show "x \<le> y \<Longrightarrow> y \<le> z \<Longrightarrow> x \<le> z"
    unfolding less_eq_datetime_def by (rule order_trans)
  show "x \<le> y \<Longrightarrow> y \<le> x \<Longrightarrow> x = y"
    using antisym[of "dt_key x" "dt_key y"]
    by (cases x; cases y) (simp add: less_eq_datetime_def)
  show "x \<le> y \<or> y \<le> x"
    unfolding less_eq_datetime_def by (rule linear)
qed

end

subsection \<open>Decimal formatting\<close>

definition digit_char :: "nat \<Rightarrow> char" where
  "digit_char n = char_of (48 + n)"

text \<open>The \<open>w\<close> low decimal digits of \<open>n\<close>, most significant first.\<close>

fun digs :: "nat \<Rightarrow> nat \<Rightarrow> string" where
  "digs 0 n = []"
| "digs (Suc w) n = digs w (n div 10) @ [digit_char (n mod 10)]"

fun ndigits :: "nat \<Rightarrow> nat" where
  "ndigits n = (if n < 10 then 1 else Suc (ndigits (n div 10)))"

text \<open>Python's \<^verbatim>\<open>'%0wd' % n\<close> for a non-negative \<open>n\<close>: at least \<open>w\<close> digits, zero padded.\<close>

definition zpad :: "nat \<Rightarrow> nat \<Rightarrow> string" where
  "zpad w n = digs (max w (ndigits n)) n"

text \<open>
  \<^verbatim>\<open>str(dt)\<close>, which is what an f-string field \<^verbatim>\<open>{t0}\<close> renders: \<^verbatim>\<open>dt.isoformat(sep=' ')\<close>,
  that is \<^verbatim>\<open>YYYY-MM-DD HH:MM:SS\<close>, followed by \<^verbatim>\<open>.ffffff\<close> when the microsecond is not 0.
\<close>

definition str_datetime :: "datetime \<Rightarrow> string" where
  "str_datetime dt =
     zpad 4 (year dt) @ ''-'' @ zpad 2 (month dt) @ ''-'' @ zpad 2 (day dt) @ '' '' @
     zpad 2 (hour dt) @ '':'' @ zpad 2 (minute dt) @ '':'' @ zpad 2 (second dt) @
     (if microsecond dt = 0 then [] else ''.'' @ zpad 6 (microsecond dt))"

section \<open>Errors\<close>

text \<open>
  Every exception the modelled code can raise, as a value. \<open>ValueError\<close> and
  \<open>ValidityError\<close> are the two \<^verbatim>\<open>raise\<close> statements of \<^verbatim>\<open>scihubclient.py\<close>; the others
  come out of the library calls the code makes (\<^verbatim>\<open>datetime.strptime\<close>, \<^verbatim>\<open>Match.group\<close>,
  datetime arithmetic, indexing) and out of its \<^verbatim>\<open>assert\<close> statements.
\<close>

datatype error =
    ValueError string           \<comment> \<open>\<^verbatim>\<open>raise ValueError(msg)\<close> in \<^verbatim>\<open>get_validity_info\<close>\<close>
  | ValidityError string        \<comment> \<open>\<^verbatim>\<open>raise ValidityError(msg)\<close> in \<^verbatim>\<open>lastval_cover\<close>\<close>
  | StrptimeValueError string   \<comment> \<open>the \<^verbatim>\<open>ValueError\<close> of \<^verbatim>\<open>datetime.strptime\<close> on this text\<close>
  | IndexError                  \<comment> \<open>\<^verbatim>\<open>mobj.group(name)\<close> with no such group; \<^verbatim>\<open>xs[0]\<close> on \<^verbatim>\<open>[]\<close>\<close>
  | TypeError                   \<comment> \<open>\<^verbatim>\<open>strptime(None, ...)\<close>: the group took no part in the match\<close>
  | OverflowError               \<comment> \<open>datetime arithmetic leaves the range of \<^verbatim>\<open>datetime\<close>\<close>
  | AssertionError              \<comment> \<open>a failed \<^verbatim>\<open>assert\<close>\<close>
  | ProviderError string        \<comment> \<open>whatever the catalog provider raises, passed on unchanged\<close>

text \<open>
  The classes of these exceptions, and Python's subclass relation between them:
  \<^verbatim>\<open>class ValidityError(ValueError)\<close>, the others directly below \<^verbatim>\<open>Exception\<close>.
\<close>

datatype exc_class =
  ValueError_class | ValidityError_class | IndexError_class | TypeError_class |
  OverflowError_class | AssertionError_class | Provider_class

fun type_of :: "error \<Rightarrow> exc_class" where
  "type_of (ValueError _) = ValueError_class"
| "type_of (ValidityError _) = ValidityError_class"
| "type_of (StrptimeValueError _) = ValueError_class"
| "type_of IndexError = IndexError_class"
| "type_of TypeError = TypeError_class"
| "type_of OverflowError = OverflowError_class"
| "type_of AssertionError = AssertionError_class"
| "type_of (ProviderError _) = Provider_class"

fun issubclass :: "exc_class \<Rightarrow> exc_class \<Rightarrow> bool" where
  "issubclass ValidityError_class ValueError_class = True"
| "issubclass c c' = (c = c')"

definition isinstance :: "error \<Rightarrow> exc_class \<Rightarrow> bool" where
  "isinstance e c = issubclass (type_of e) c"

section \<open>Validity records and the coverage selector\<close>

record ValidityInfo =
  product_id :: string
  generation_date :: datetime
  start_validity :: datetime
  stop_validity :: datetime

text \<open>
  The list comprehension of \<^verbatim>\<open>lastval_cover\<close>:
  \<^verbatim>\<open>[item for item in data if item.start_validity <= t0 and item.stop_validity >= t1]\<close>.
\<close>

definition candidates :: "datetime \<Rightarrow> datetime \<Rightarrow> ValidityInfo list \<Rightarrow> ValidityInfo list" where
  "candidates t0 t1 data =
     [item \<leftarrow> data. start_validity item \<le> t0 \<and> stop_validity item \<ge> t1]"

text \<open>
  \<^verbatim>\<open>xs.sort(key=k, reverse=True)\<close>. CPython keeps the sort stable under \<^verbatim>\<open>reverse=True\<close> by
  reversing the list, sorting it stably in ascending order, and reversing the result;
  \<open>sort_key\<close> is a stable ascending sort.
\<close>

definition sort_reverse :: "('a \<Rightarrow> 'k::linorder) \<Rightarrow> 'a list \<Rightarrow> 'a list" where
  "sort_reverse k xs = rev (sort_key k (rev xs))"

definition no_cover_message :: "datetime \<Rightarrow> datetime \<Rightarrow> string" where
  "no_cover_message t0 t1 =
     ''none of the input products completely covers the requested '' @
     ''time interval: [t0='' @ str_datetime t0 @ '', t1='' @ str_datetime t1 @ '']''"

definition lastval_cover :: "datetime \<Rightarrow> datetime \<Rightarrow> ValidityInfo list \<Rightarrow> error + string" where
  "lastval_cover t0 t1 data =
     (let cands = candidates t0 t1 data in
      if cands = [] then Inl (ValidityError (no_cover_message t0 t1))
      else
        (case sort_reverse generation_date cands of
           [] \<Rightarrow> Inl IndexError
         | c # _ \<Rightarrow> Inr (product_id c)))"

section \<open>Regular expressions\<close>

text \<open>
  The fragment of Python's \<^verbatim>\<open>re\<close> syntax that the patterns of this program are written in,
  with the backtracking semantics of \<^verbatim>\<open>re\<close>: \<open>ms r s g\<close> lists every way in which \<open>r\<close>
  matches a prefix of \<open>s\<close>, as the rest of the text and the groups captured on the way,
  in the order in which the backtracking matcher tries them (left alternative first,
  greedy repetition longest first). \<^verbatim>\<open>Pattern.match\<close> answers the first one.
  Strings are sequences of the code points 0 to 255.
\<close>

datatype rx =
    Eps                        \<comment> \<open>the empty pattern\<close>
  | Chr "char \<Rightarrow> bool"          \<comment> \<open>one character of a class; a literal \<open>c\<close> is the class \<open>lit c\<close>\<close>
  | Seq rx rx                  \<comment> \<open>\<^verbatim>\<open>ab\<close>\<close>
  | Alt rx rx                  \<comment> \<open>\<^verbatim>\<open>a|b\<close>\<close>
  | Star "char \<Rightarrow> bool"         \<comment> \<open>\<^verbatim>\<open>c*\<close>, greedy, of a character class\<close>
  | Rep nat "char \<Rightarrow> bool"      \<comment> \<open>\<^verbatim>\<open>c{n}\<close> of a character class\<close>
  | Grp string rx              \<comment> \<open>\<^verbatim>\<open>(?P<name>a)\<close>\<close>

type_synonym groups = "string \<rightharpoonup> string"

fun star_rests :: "(char \<Rightarrow> bool) \<Rightarrow> string \<Rightarrow> string list" where
  "star_rests P [] = [[]]"
| "star_rests P (c # cs) = (if P c then star_rests P cs @ [c # cs] else [c # cs])"

fun ms :: "rx \<Rightarrow> string \<Rightarrow> groups \<Rightarrow> (string \<times> groups) list" where
  "ms Eps s g = [(s, g)]"
| "ms (Chr P) s g = (case s of [] \<Rightarrow> [] | c # cs \<Rightarrow> if P c then [(cs, g)] else [])"
| "ms (Seq a b) s g = concat (map (\<lambda>(s', g'). ms b s' g') (ms a s g))"
| "ms (Alt a b) s g = ms a s g @ ms b s g"
| "ms (Star P) s g = map (\<lambda>s'. (s', g)) (star_rests P s)"
| "ms (Rep n P) s g =
     (if n \<le> length s \<and> list_all P (take n s) then [(drop n s, g)] else [])"
| "ms (Grp name a) s g =
     map (\<lambda>(s', g'). (s', g'(name \<mapsto> take (length s - length s') s))) (ms a s g)"

fun seqs :: "rx list \<Rightarrow> rx" where
  "seqs [] = Eps"
| "seqs (r # rs) = Seq r (seqs rs)"

fun group_names :: "rx \<Rightarrow> string list" where
  "group_names (Seq a b) = group_names a @ group_names b"
| "group_names (Alt a b) = group_names a @ group_names b"
| "group_names (Grp name a) = name # group_names a"
| "group_names _ = []"

text \<open>
  A match object: the names of the pattern's groups and the text each group captured
  (no text for a group that took no part in the match).
\<close>

record mobj =
  names :: "string list"
  captured :: groups

definition re_match :: "rx \<Rightarrow> string \<Rightarrow> mobj option" where
  "re_match pattern s =
     (case ms pattern s Map.empty of
        [] \<Rightarrow> None
      | (_, g) # _ \<Rightarrow> Some \<lparr>names = group_names pattern, captured = g\<rparr>)"

text \<open>\<^verbatim>\<open>mobj.group(name)\<close>: \<^verbatim>\<open>IndexError\<close> for a name the pattern does not define.\<close>

definition group :: "mobj \<Rightarrow> string \<Rightarrow> error + string option" where
  "group m name = (if name \<in> set (names m) then Inr (captured m name) else Inl IndexError)"

subsection \<open>Character classes\<close>

definition lit :: "char \<Rightarrow> char \<Rightarrow> bool" where
  "lit c x = (x = c)"

definition in_range :: "char \<Rightarrow> char \<Rightarrow> char \<Rightarrow> bool" where
  "in_range lo hi x = ((of_char lo :: nat) \<le> of_char x \<and> (of_char x :: nat) \<le> of_char hi)"

text \<open>\<^verbatim>\<open>\d\<close>: among the code points 0 to 255 the decimal digits are \<^verbatim>\<open>0\<close> to \<^verbatim>\<open>9\<close>.\<close>

definition is_digit :: "char \<Rightarrow> bool" where
  "is_digit = in_range CHR ''0'' CHR ''9''"

text \<open>
  \<^verbatim>\<open>\w\<close> of a \<^verbatim>\<open>str\<close> pattern: the alphanumeric characters and the underscore. Among the
  code points 0 to 255 these are the ASCII letters and digits, the underscore, and
  the Latin-1 letters and numerics 170, 178, 179, 181, 185, 186, 188 to 190, 192 to 214,
  216 to 246 and 248 to 255.
\<close>

definition is_word :: "char \<Rightarrow> bool" where
  "is_word x =
     (let n = (of_char x :: nat) in
      in_range CHR ''a'' CHR ''z'' x \<or> in_range CHR ''A'' CHR ''Z'' x \<or>
      in_range CHR ''0'' CHR ''9'' x \<or> x = CHR ''_'' \<or>
      n \<in> {170, 178, 179, 181, 185, 186} \<or> (188 \<le> n \<and> n \<le> 190) \<or>
      (192 \<le> n \<and> n \<le> 214) \<or> (216 \<le> n \<and> n \<le> 246) \<or> (248 \<le> n \<and> n \<le> 255))"

section \<open>Parsing timestamps\<close>

text \<open>\<^verbatim>\<open>int(text)\<close> on a run of decimal digits, after leading blanks.\<close>

definition digit_val :: "char \<Rightarrow> nat" where
  "digit_val c = of_char c - 48"

definition nat_of_digits :: "string \<Rightarrow> nat" where
  "nat_of_digits t = foldl (\<lambda>a c. 10 * a + digit_val c) 0 t"

definition py_int :: "string \<Rightarrow> nat" where
  "py_int t = nat_of_digits (dropWhile (\<lambda>c. c = CHR '' '') t)"

text \<open>The calendar of the \<^verbatim>\<open>datetime\<close> module.\<close>

definition is_leap :: "nat \<Rightarrow> bool" where
  "is_leap y = (y mod 4 = 0 \<and> (y mod 100 \<noteq> 0 \<or> y mod 400 = 0))"

definition DAYS_IN_MONTH :: "int list" where
  "DAYS_IN_MONTH = [-1, 31, 28, 31, 30, 31, 30, 31, 31, 30, 31, 30, 31]"

definition DAYS_BEFORE_MONTH :: "int list" where
  "DAYS_BEFORE_MONTH = [-1, 0, 31, 59, 90, 120, 151, 181, 212, 243, 273, 304, 334]"

definition days_in_month :: "nat \<Rightarrow> nat \<Rightarrow> int" where
  "days_in_month y m = (if m = 2 \<and> is_leap y then 29 else DAYS_IN_MONTH ! m)"

text \<open>
  The checks of the \<^verbatim>\<open>datetime\<close> constructor: \<^verbatim>\<open>MINYEAR <= year <= MAXYEAR\<close>, the month, the
  day of the month, the time of day.
\<close>

definition valid_datetime :: "datetime \<Rightarrow> bool" where
  "valid_datetime dt =
     (1 \<le> year dt \<and> year dt \<le> 9999 \<and> 1 \<le> month dt \<and> month dt \<le> 12 \<and>
      1 \<le> day dt \<and> int (day dt) \<le> days_in_month (year dt) (month dt) \<and>
      hour dt \<le> 23 \<and> minute dt \<le> 59 \<and> second dt \<le> 59 \<and> microsecond dt \<le> 999999)"

text \<open>
  \<^verbatim>\<open>DATE_FMT = '%Y%m%dT%H%M%S'\<close>. \<^verbatim>\<open>strptime\<close> (CPython 3.11, module \<^verbatim>\<open>_strptime\<close>) turns the
  format into the regular expression below, one named group per directive, compiled
  with \<^verbatim>\<open>IGNORECASE\<close> (so the literal \<^verbatim>\<open>T\<close> also matches \<^verbatim>\<open>t\<close>):
  \<^verbatim>\<open>%Y\<close> is \<^verbatim>\<open>\d\d\d\d\<close>, \<^verbatim>\<open>%m\<close> is \<^verbatim>\<open>1[0-2]|0[1-9]|[1-9]\<close>,
  \<^verbatim>\<open>%d\<close> is \<^verbatim>\<open>3[0-1]|[1-2]\d|0[1-9]|[1-9]| [1-9]\<close>, \<^verbatim>\<open>%H\<close> is \<^verbatim>\<open>2[0-3]|[0-1]\d|\d\<close>,
  \<^verbatim>\<open>%M\<close> is \<^verbatim>\<open>[0-5]\d|\d\<close>, \<^verbatim>\<open>%S\<close> is \<^verbatim>\<open>6[0-1]|[0-5]\d|\d\<close>.
\<close>

fun alts :: "rx list \<Rightarrow> rx" where
  "alts [] = Chr (\<lambda>_. False)"
| "alts [r] = r"
| "alts (r # rs) = Alt r (alts rs)"

definition two :: "(char \<Rightarrow> bool) \<Rightarrow> (char \<Rightarrow> bool) \<Rightarrow> rx" where
  "two P Q = Seq (Chr P) (Chr Q)"

definition dir_Y :: rx where
  "dir_Y = Grp ''Y'' (seqs [Chr is_digit, Chr is_digit, Chr is_digit, Chr is_digit])"

definition dir_m :: rx where
  "dir_m = Grp ''m'' (alts [two (lit CHR ''1'') (in_range CHR ''0'' CHR ''2''),
                           two (lit CHR ''0'') (in_range CHR ''1'' CHR ''9''),
                           Chr (in_range CHR ''1'' CHR ''9'')])"

definition dir_d :: rx where
  "dir_d = Grp ''d'' (alts [two (lit CHR ''3'') (in_range CHR ''0'' CHR ''1''),
                           two (in_range CHR ''1'' CHR ''2'') is_digit,
                           two (lit CHR ''0'') (in_range CHR ''1'' CHR ''9''),
                           Chr (in_range CHR ''1'' CHR ''9''),
                           two (lit CHR '' '') (in_range CHR ''1'' CHR ''9'')])"

definition dir_H :: rx where
  "dir_H = Grp ''H'' (alts [two (lit CHR ''2'') (in_range CHR ''0'' CHR ''3''),
                           two (in_range CHR ''0'' CHR ''1'') is_digit,
                           Chr is_digit])"

definition dir_M :: rx where
  "dir_M = Grp ''M'' (alts [two (in_range CHR ''0'' CHR ''5'') is_digit,
                           Chr is_digit])"

definition dir_S :: rx where
  "dir_S = Grp ''S'' (alts [two (lit CHR ''6'') (in_range CHR ''0'' CHR ''1''),
                           two (in_range CHR ''0'' CHR ''5'') is_digit,
                           Chr is_digit])"

definition lit_T :: rx where
  "lit_T = Chr (\<lambda>x. x = CHR ''T'' \<or> x = CHR ''t'')"

definition DATE_FMT_rx :: rx where
  "DATE_FMT_rx = seqs [dir_Y, dir_m, dir_d, lit_T, dir_H, dir_M, dir_S]"

text \<open>
  \<^verbatim>\<open>int(found_dict[name])\<close>. Every group of the expression takes part in every match of
  it, so the group is there.
\<close>

definition field :: "groups \<Rightarrow> string \<Rightarrow> nat" where
  "field g name = (case g name of None \<Rightarrow> 0 | Some t \<Rightarrow> py_int t)"

text \<open>
  \<^verbatim>\<open>datetime.datetime.strptime(text, DATE_FMT)\<close>: the first match of the expression, which
  must reach the end of the text; then the fields as numbers, and the checks of the
  \<^verbatim>\<open>datetime\<close> constructor on them. Every failure is a \<^verbatim>\<open>ValueError\<close>.
\<close>

definition strptime :: "string \<Rightarrow> error + datetime" where
  "strptime text =
     (case ms DATE_FMT_rx text Map.empty of
        [] \<Rightarrow> Inl (StrptimeValueError text)
      | (rest, g) # _ \<Rightarrow>
          if rest \<noteq> [] then Inl (StrptimeValueError text)
          else
            (let dt = Datetime (field g ''Y'') (field g ''m'') (field g ''d'')
                        (field g ''H'') (field g ''M'') (field g ''S'') 0
             in if valid_datetime dt then Inr dt else Inl (StrptimeValueError text)))"

section \<open>The identifier parser\<close>

text \<open>
  The default pattern of \<^verbatim>\<open>get_validity_info\<close>:
  \<^verbatim>\<open>S1\w+_(?P<generation_date>\d{8}T\d{6})_V(?P<start_validity>\d{8}T\d{6})_(?P<stop_validity>\d{8}T\d{6})\w*\<close>
\<close>

definition stamp_rx :: rx where
  "stamp_rx = seqs [Rep 8 is_digit, Chr (lit CHR ''T''), Rep 6 is_digit]"

definition default_pattern :: rx where
  "default_pattern = seqs
     [Chr (lit CHR ''S''), Chr (lit CHR ''1''), Chr is_word, Star is_word, Chr (lit CHR ''_''),
      Grp ''generation_date'' stamp_rx, Chr (lit CHR ''_''), Chr (lit CHR ''V''),
      Grp ''start_validity'' stamp_rx, Chr (lit CHR ''_''),
      Grp ''stop_validity'' stamp_rx, Star is_word]"

text \<open>
  \<^verbatim>\<open>datetime.datetime.strptime(mobj.group(name), DATE_FMT)\<close>: \<^verbatim>\<open>TypeError\<close> when the group
  holds \<^verbatim>\<open>None\<close>.
\<close>

definition parse_group :: "mobj \<Rightarrow> string \<Rightarrow> error + datetime" where
  "parse_group m name =
     (case group m name of
        Inl e \<Rightarrow> Inl e
      | Inr None \<Rightarrow> Inl TypeError
      | Inr (Some text) \<Rightarrow> strptime text)"

text \<open>
  The dictionary comprehension over \<^verbatim>\<open>keys\<close>, in the order of \<^verbatim>\<open>keys\<close>, and the record
  built from it.
\<close>

definition validity_data :: "string \<Rightarrow> mobj \<Rightarrow> error + ValidityInfo" where
  "validity_data pid m =
     (case parse_group m ''generation_date'' of
        Inl e \<Rightarrow> Inl e
      | Inr gd \<Rightarrow>
          (case parse_group m ''start_validity'' of
             Inl e \<Rightarrow> Inl e
           | Inr sv \<Rightarrow>
               (case parse_group m ''stop_validity'' of
                  Inl e \<Rightarrow> Inl e
                | Inr ev \<Rightarrow>
                    Inr \<lparr>product_id = pid, generation_date = gd,
                         start_validity = sv, stop_validity = ev\<rparr>)))"

definition no_match_message :: "string \<Rightarrow> string" where
  "no_match_message pid =
     [CHR 0x22] @ pid @ [CHR 0x22] @ '' does not math the regular expression '' @
     ''for validity''"

text \<open>The loop of \<^verbatim>\<open>get_validity_info\<close> over \<^verbatim>\<open>products\<close>, with the list \<^verbatim>\<open>out\<close> it appends to.\<close>

fun get_validity_loop :: "rx \<Rightarrow> string list \<Rightarrow> ValidityInfo list \<Rightarrow> error + ValidityInfo list" where
  "get_validity_loop pattern [] out = Inr out"
| "get_validity_loop pattern (pid # products) out =
     (case re_match pattern pid of
        Some m \<Rightarrow>
          (case validity_data pid m of
             Inl e \<Rightarrow> Inl e
           | Inr info \<Rightarrow> get_validity_loop pattern products (out @ [info]))
      | None \<Rightarrow> Inl (ValueError (no_match_message pid)))"

text \<open>
  \<^verbatim>\<open>if pattern is None: pattern = re.compile(...)\<close>: the pattern in force.
\<close>

definition the_pattern :: "rx option \<Rightarrow> rx" where
  "the_pattern pattern = (case pattern of None \<Rightarrow> default_pattern | Some p \<Rightarrow> p)"

definition get_validity_info :: "string list \<Rightarrow> rx option \<Rightarrow> error + ValidityInfo list" where
  "get_validity_info products pattern = get_validity_loop (the_pattern pattern) products []"

text \<open>
  An identifier that the pattern matches and whose three timestamps \<^verbatim>\<open>strptime\<close> accepts,
  with the three date-times it yields.
\<close>

definition parses_to :: "rx \<Rightarrow> string \<Rightarrow> datetime \<Rightarrow> datetime \<Rightarrow> datetime \<Rightarrow> bool" where
  "parses_to pattern pid gd sv ev =
     (case re_match pattern pid of
        None \<Rightarrow> False
      | Some m \<Rightarrow>
          parse_group m ''generation_date'' = Inr gd \<and>
          parse_group m ''start_validity'' = Inr sv \<and>
          parse_group m ''stop_validity'' = Inr ev)"

section \<open>A store of list objects\<close>

text \<open>
  Python lists are mutable objects that the caller and the callee share by reference.
  The store holds the list objects, a reference is an index into it, and a new object
  takes the next free index.
\<close>

type_synonym ref = nat

type_synonym store = "ValidityInfo list list"

definition alloc :: "ValidityInfo list \<Rightarrow> store \<Rightarrow> ref \<times> store" where
  "alloc v h = (length h, h @ [v])"

definition deref :: "store \<Rightarrow> ref \<Rightarrow> ValidityInfo list" where
  "deref h r = h ! r"

definition assign :: "ref \<Rightarrow> ValidityInfo list \<Rightarrow> store \<Rightarrow> store" where
  "assign r v h = h[r := v]"

text \<open>
  \<^verbatim>\<open>lastval_cover\<close> on the store: \<^verbatim>\<open>data\<close> is a reference to the caller's list. The list
  comprehension builds a new list object, \<^verbatim>\<open>candidates.sort(...)\<close> sorts that object in
  place, and \<^verbatim>\<open>candidates[0]\<close> reads it.
\<close>

definition lastval_cover_st ::
  "datetime \<Rightarrow> datetime \<Rightarrow> ref \<Rightarrow> store \<Rightarrow> (error + string) \<times> store" where
  "lastval_cover_st t0 t1 data h =
     (let (cands, h1) =
            alloc [item \<leftarrow> deref h data. start_validity item \<le> t0 \<and> stop_validity item \<ge> t1] h
      in if deref h1 cands = [] then (Inl (ValidityError (no_cover_message t0 t1)), h1)
         else
           (let h2 = assign cands (sort_reverse generation_date (deref h1 cands)) h1
            in (case deref h2 cands of
                  [] \<Rightarrow> Inl IndexError
                | c # _ \<Rightarrow> Inr (product_id c), h2)))"

section \<open>Date arithmetic\<close>

text \<open>
  A \<^verbatim>\<open>datetime.timedelta\<close>: days, seconds and microseconds.
\<close>

datatype timedelta = Timedelta (td_days: int) (td_seconds: int) (td_microseconds: int)

definition td_total :: "timedelta \<Rightarrow> int" where
  "td_total td = (td_days td * 86400 + td_seconds td) * 1000000 + td_microseconds td"

text \<open>The proleptic Gregorian ordinal of a date and back, as the \<^verbatim>\<open>datetime\<close> module computes them.\<close>

definition days_before_year :: "int \<Rightarrow> int" where
  "days_before_year y = (let y = y - 1 in y * 365 + y div 4 - y div 100 + y div 400)"

definition days_before_month :: "nat \<Rightarrow> nat \<Rightarrow> int" where
  "days_before_month y m = DAYS_BEFORE_MONTH ! m + (if m > 2 \<and> is_leap y then 1 else 0)"

definition toordinal :: "datetime \<Rightarrow> int" where
  "toordinal dt =
     days_before_year (int (year dt)) + days_before_month (year dt) (month dt) + int (day dt)"

definition ord2ymd :: "int \<Rightarrow> nat \<times> nat \<times> nat" where
  "ord2ymd n0 =
     (let n = n0 - 1;
          n400 = n div 146097; n = n mod 146097;
          n100 = n div 36524; n = n mod 36524;
          n4 = n div 1461; n = n mod 1461;
          n1 = n div 365; n = n mod 365;
          y = n400 * 400 + 1 + n100 * 100 + n4 * 4 + n1
      in if n1 = 4 \<or> n100 = 4 then (nat (y - 1), 12, 31)
         else
           (let leapyear = (n1 = 3 \<and> (n4 \<noteq> 24 \<or> n100 = 3));
                m = nat ((n + 50) div 32);
                preceding = DAYS_BEFORE_MONTH ! m + (if m > 2 \<and> leapyear then 1 else 0)
            in if preceding > n
               then (let m = m - 1;
                         preceding = preceding -
                           (DAYS_IN_MONTH ! m + (if m = 2 \<and> leapyear then 1 else 0))
                     in (nat y, m, nat (n - preceding + 1)))
               else (nat y, m, nat (n - preceding + 1))))"

text \<open>
  \<^verbatim>\<open>datetime + timedelta\<close> and \<^verbatim>\<open>datetime - timedelta\<close>: the date-time as microseconds since
  ordinal 0, shifted, and split again with floor division; \<^verbatim>\<open>OverflowError\<close> when the day
  leaves \<^verbatim>\<open>1 .. 3652059\<close> (the ordinals of the years 1 to 9999).
\<close>

definition dt_shift :: "datetime \<Rightarrow> int \<Rightarrow> error + datetime" where
  "dt_shift dt delta =
     (let secs = toordinal dt * 86400 + int (hour dt) * 3600 + int (minute dt) * 60 +
                 int (second dt);
          total = secs * 1000000 + int (microsecond dt) + delta;
          d = total div 86400000000;
          r = total mod 86400000000;
          s = r div 1000000;
          us = r mod 1000000
      in if 0 < d \<and> d \<le> 3652059
         then (case ord2ymd d of
                 (y, m, dd) \<Rightarrow>
                   Inr (Datetime y m dd (nat (s div 3600)) (nat (s mod 3600 div 60))
                          (nat (s mod 60)) (nat us)))
         else Inl OverflowError)"

definition dt_add :: "datetime \<Rightarrow> timedelta \<Rightarrow> error + datetime" where
  "dt_add dt td = dt_shift dt (td_total td)"

definition dt_sub :: "datetime \<Rightarrow> timedelta \<Rightarrow> error + datetime" where
  "dt_sub dt td = dt_shift dt (- td_total td)"

section \<open>Query orchestration\<close>

text \<open>
  What \<^verbatim>\<open>ScihubGnssClient\<close> uses of the classes that are not part of these sources: of a
  Sentinel-1 product (\<^verbatim>\<open>products.Sentinel\<close>) its start time, stop time and mission; of the
  catalog (\<^verbatim>\<open>_gnss.GnssAPI\<close>) the call \<^verbatim>\<open>query(producttype=..., platformserialidentifier=...,
  date=[t0, t1])\<close>, which answers a dictionary, kept here in its order of iteration, of
  entries with an \<^verbatim>\<open>identifier\<close>. The catalog is a parameter: a function of the query and of
  the state of the outside world, which it may change.
\<close>

record product =
  start_time :: datetime
  stop_time :: datetime
  mission :: string

record query_params =
  producttype :: string
  platformserialidentifier :: string
  date :: "datetime \<times> datetime"

record catalog_entry =
  "identifier" :: string

type_synonym ('k, 'a) catalog = "('k \<times> 'a catalog_entry_scheme) list"

type_synonym ('k, 'a, 's) api = "query_params \<Rightarrow> 's \<Rightarrow> (error + ('k, 'a) catalog) \<times> 's"

definition T0 :: timedelta where
  "T0 = Timedelta 1 0 0"

definition T1 :: timedelta where
  "T1 = Timedelta 1 0 0"

definition query_orbit ::
  "('k, 'a, 's) api \<Rightarrow> datetime \<Rightarrow> datetime \<Rightarrow> string \<Rightarrow> string \<Rightarrow> 's \<Rightarrow>
     (error + ('k, 'a) catalog) \<times> 's" where
  "query_orbit api t0 t1 satellite_id product_type s =
     (if satellite_id \<notin> {''S1A'', ''S1B''} then (Inl AssertionError, s)
      else if product_type \<notin> {''AUX_POEORB'', ''AUX_RESORB''} then (Inl AssertionError, s)
      else api \<lparr>producttype = product_type,
                platformserialidentifier = drop 1 satellite_id,
                date = (t0, t1)\<rparr> s)"

definition select_orbit ::
  "('k, 'a) catalog \<Rightarrow> datetime \<Rightarrow> datetime \<Rightarrow> error + ('k, 'a) catalog" where
  "select_orbit products t0 t1 =
     (let orbit_products = map (\<lambda>(k, p). identifier p) products
      in case get_validity_info orbit_products None of
           Inl e \<Rightarrow> Inl e
         | Inr validity_info \<Rightarrow>
             (case lastval_cover t0 t1 validity_info of
                Inl e \<Rightarrow> Inl e
              | Inr pid \<Rightarrow> Inr [(k, v) \<leftarrow> products. identifier v = pid]))"

text \<open>
  \<^verbatim>\<open>query_orbit_for_product\<close>. An argument left out is \<open>None\<close>; a product given as a string
  goes through the constructor \<^verbatim>\<open>S1Product\<close>, a parameter.
\<close>

definition query_orbit_for_product ::
  "(string \<Rightarrow> error + product) \<Rightarrow> ('k, 'a, 's) api \<Rightarrow> string + product \<Rightarrow> string option \<Rightarrow>
     timedelta option \<Rightarrow> timedelta option \<Rightarrow> 's \<Rightarrow> (error + ('k, 'a) catalog) \<times> 's" where
  "query_orbit_for_product S1Product api product product_type t0_margin t1_margin s =
     (let product_type = (case product_type of None \<Rightarrow> ''AUX_POEORB'' | Some pt \<Rightarrow> pt);
          t0_margin = (case t0_margin of None \<Rightarrow> T0 | Some m \<Rightarrow> m);
          t1_margin = (case t1_margin of None \<Rightarrow> T1 | Some m \<Rightarrow> m)
      in case (case product of Inl name \<Rightarrow> S1Product name | Inr p \<Rightarrow> Inr p) of
           Inl e \<Rightarrow> (Inl e, s)
         | Inr product \<Rightarrow>
             (let t0 = start_time product; t1 = stop_time product
              in case dt_sub t0 t0_margin of
                   Inl e \<Rightarrow> (Inl e, s)
                 | Inr lo \<Rightarrow>
                     (case dt_add t1 t1_margin of
                        Inl e \<Rightarrow> (Inl e, s)
                      | Inr hi \<Rightarrow>
                          (case query_orbit api lo hi (mission product) product_type s of
                             (Inl e, s') \<Rightarrow> (Inl e, s')
                           | (Inr products, s') \<Rightarrow> (select_orbit products t0 t1, s')))))"

text \<open>A catalog that answers every query with the same entries and records the queries it gets.\<close>

definition recording_api :: "('k, 'a) catalog \<Rightarrow> ('k, 'a, query_params list) api" where
  "recording_api answer q log = (Inr answer, log @ [q])"

section \<open>The identifier format\<close>



text \<open>Whether the text holds the two characters \<^verbatim>\<open>_V\<close> somewhere.\<close>

fun has_marker :: "string \<Rightarrow> bool" where
  "has_marker (a # b # t) = ((a = CHR ''_'' \<and> b = CHR ''V'') \<or> has_marker (b # t))"
| "has_marker _ = False"

section \<open>Auxiliary notions\<close>


text \<open>A text of the shape \<^verbatim>\<open>\d{8}T\d{6}\<close>.\<close>

definition is_stamp :: "string \<Rightarrow> bool" where
  "is_stamp x =
     (length x = 15 \<and> list_all is_digit (take 8 x) \<and> x ! 8 = CHR ''T'' \<and>
      list_all is_digit (drop 9 x))"

text \<open>The default pattern after its \<^verbatim>\<open>S1\w+\<close>.\<close>

definition tail_rx :: rx where
  "tail_rx = seqs
     [Chr (lit CHR ''_''),
      Grp ''generation_date'' stamp_rx, Chr (lit CHR ''_''), Chr (lit CHR ''V''),
      Grp ''start_validity'' stamp_rx, Chr (lit CHR ''_''),
      Grp ''stop_validity'' stamp_rx, Star is_word]"






section \<open>Sample data\<close>

text \<open>
  The interval from 2020-06-01 to 2020-06-02 and records that cover it, named and
  generated on a chosen day of June 2020.
\<close>

definition ex_t0 :: datetime where
  "ex_t0 = Datetime 2020 6 1 0 0 0 0"

definition ex_t1 :: datetime where
  "ex_t1 = Datetime 2020 6 2 0 0 0 0"

definition ex_rec :: "string \<Rightarrow> nat \<Rightarrow> ValidityInfo" where
  "ex_rec name gen_day =
     \<lparr>product_id = name, generation_date = Datetime 2020 6 gen_day 0 0 0 0,
      start_validity = Datetime 2020 5 31 0 0 0 0, stop_validity = Datetime 2020 6 2 0 0 0 0\<rparr>"

text \<open>A record that stops before the end of that interval.\<close>

definition ex_out :: "string \<Rightarrow> nat \<Rightarrow> ValidityInfo" where
  "ex_out name gen_day =
     \<lparr>product_id = name, generation_date = Datetime 2020 6 gen_day 0 0 0 0,
      start_validity = Datetime 2020 5 31 0 0 0 0, stop_validity = Datetime 2020 6 1 12 0 0 0\<rparr>"

section \<open>Properties of the decimal notation\<close>

declare ndigits.simps [simp del]

lemma ndigits_le: "0 < w \<Longrightarrow> n < 10 ^ w \<Longrightarrow> ndigits n \<le> w"
proof (induction w arbitrary: n)
  case 0
  then show ?case by simp
next
  case (Suc w)
  show ?case
  proof (cases "n < 10")
    case True
    then show ?thesis by (simp add: ndigits.simps[of n])
  next
    case False
    then have "0 < w" using Suc.prems by (cases w) auto
    moreover have "n div 10 < 10 ^ w" using Suc.prems by (simp add: less_mult_imp_div_less mult.commute)
    ultimately have "ndigits (n div 10) \<le> w" by (rule Suc.IH)
    then show ?thesis using False by (simp add: ndigits.simps[of n])
  qed
qed

lemma zpad_digs: "0 < w \<Longrightarrow> n < 10 ^ w \<Longrightarrow> zpad w n = digs w n"
  using ndigits_le[of w n] by (simp add: zpad_def max_absorb1)

lemma digs_numeral:
  "digs (numeral k) n = digs (pred_numeral k) (n div 10) @ [digit_char (n mod 10)]"
  unfolding numeral_eq_Suc[of k] by (rule digs.simps)






lemma length_digs [simp]: "length (digs w n) = w"
  by (induction w arbitrary: n) auto






section \<open>Properties of the coverage selector\<close>

lemma sort_key_Nil_iff: "sort_key k xs = [] \<longleftrightarrow> xs = []"
  by (metis length_sort length_0_conv)

lemma last_insort_key:
  "sorted (map k ys) \<Longrightarrow>
   last (insort_key k x ys) = (if ys = [] \<or> k (last ys) < k x then x else last ys)"
proof (induction ys)
  case Nil
  then show ?case by simp
next
  case (Cons a ys)
  show ?case
  proof (cases "k x \<le> k a")
    case True
    have "k a \<le> k (last (a # ys))"
      using Cons.prems by (cases "ys = []") auto
    with True show ?thesis by auto
  next
    case False
    then show ?thesis using Cons by (auto split: if_splits)
  qed
qed

lemma last_sort_key_Cons:
  "last (insort_key k x (sort_key k ys)) =
     (if ys = [] \<or> k (last (sort_key k ys)) < k x then x else last (sort_key k ys))"
  by (simp add: last_insort_key sort_key_Nil_iff)

text \<open>
  An ascending stable sort ends with the element of maximal key that stands last among
  those of that key.
\<close>

lemma last_sort_key_mid:
  assumes "\<forall>x \<in> set ps. k x \<le> k r"
    and "\<forall>x \<in> set qs. k x < k r"
  shows "last (sort_key k (ps @ r # qs)) = r"
  using assms(1)
proof (induction ps)
  case Nil
  have "qs \<noteq> [] \<Longrightarrow> last (sort_key k qs) \<in> set qs"
    by (metis last_in_set set_sort sort_key_Nil_iff)
  then show ?case using assms(2) by (auto simp: last_sort_key_Cons)
next
  case (Cons a ps)
  then have "last (sort_key k (ps @ r # qs)) = r" and "k a \<le> k r" by simp_all
  then show ?case by (auto simp: last_sort_key_Cons)
qed

text \<open>
  Hence the descending stable sort starts with the element of maximal key that stands
  first among those of that key.
\<close>

lemma hd_sort_reverse:
  assumes "xs = pre @ r # post"
    and "\<forall>x \<in> set pre. k x < k r"
    and "\<forall>x \<in> set post. k x \<le> k r"
  shows "\<exists>rest. sort_reverse k xs = r # rest"
proof -
  let ?ys = "sort_key k (rev xs)"
  have ne: "?ys \<noteq> []" using assms(1) by (simp add: sort_key_Nil_iff)
  have "last (sort_key k (rev post @ r # rev pre)) = r"
    by (rule last_sort_key_mid) (use assms in auto)
  then have "last ?ys = r" using assms(1) by simp
  then have "hd (rev ?ys) = r" using ne by (simp add: hd_rev)
  moreover have "rev ?ys \<noteq> []" using ne by simp
  ultimately show ?thesis
    unfolding sort_reverse_def by (cases "rev ?ys") auto
qed

lemma lastval_cover_pick:
  assumes "candidates t0 t1 data = pre @ r # post"
    and "\<forall>x \<in> set pre. generation_date x < generation_date r"
    and "\<forall>x \<in> set post. generation_date x \<le> generation_date r"
  shows "lastval_cover t0 t1 data = Inr (product_id r)"
proof -
  obtain rest where "sort_reverse generation_date (candidates t0 t1 data) = r # rest"
    using hd_sort_reverse[OF assms] by blast
  then show ?thesis using assms(1) by (simp add: lastval_cover_def)
qed

text \<open>With pairwise distinct generation dates the maximum is the one chosen, wherever it stands.\<close>

lemma lastval_cover_distinct_max:
  assumes "r \<in> set (candidates t0 t1 data)"
    and "\<forall>x \<in> set (candidates t0 t1 data). generation_date x \<le> generation_date r"
    and "distinct (map generation_date (candidates t0 t1 data))"
  shows "lastval_cover t0 t1 data = Inr (product_id r)"
proof -
  let ?cs = "candidates t0 t1 data"
  obtain pre post where split: "?cs = pre @ r # post"
    using assms(1) by (meson split_list)
  have d: "distinct (map generation_date (pre @ r # post))"
    using assms(3) split by simp
  have "\<forall>x \<in> set pre. generation_date x \<noteq> generation_date r"
    using d by (auto simp: image_iff)
  moreover have "\<forall>x \<in> set pre. generation_date x \<le> generation_date r"
    using assms(2) split by simp
  ultimately have pre: "\<forall>x \<in> set pre. generation_date x < generation_date r"
    by (simp add: order_less_le)
  have post: "\<forall>x \<in> set post. generation_date x \<le> generation_date r"
    using assms(2) split by simp
  show ?thesis by (rule lastval_cover_pick[OF split pre post])
qed

lemma datetime_le_iff [simp]:
  "Datetime y mo d h mi s us \<le> Datetime y' mo' d' h' mi' s' us' \<longleftrightarrow>
     (y, mo, d, h, mi, s, us) \<le> (y', mo', d', h', mi', s', us')"
  by (simp add: less_eq_datetime_def)

lemma datetime_less_iff [simp]:
  "Datetime y mo d h mi s us < Datetime y' mo' d' h' mi' s' us' \<longleftrightarrow>
     (y, mo, d, h, mi, s, us) < (y', mo', d', h', mi', s', us')"
  by (simp add: less_datetime_def)

lemma candidates_filter:
  "[x \<leftarrow> data. start_validity x \<le> t0 \<and> stop_validity x \<ge> t1] = candidates t0 t1 data"
  by (simp add: candidates_def)

lemma set_candidates:
  "x \<in> set (candidates t0 t1 data) \<longleftrightarrow>
     x \<in> set data \<and> start_validity x \<le> t0 \<and> stop_validity x \<ge> t1"
  by (auto simp: candidates_def)

text \<open>
  C1. A record is kept as a candidate exactly when its validity starts at or before \<open>t0\<close>
  and stops at or after \<open>t1\<close> (both bounds inclusive); what the selector answers on a
  single record shows it: the record's identifier when it covers, the error otherwise.
  A record that starts after \<open>t0\<close> or stops before \<open>t1\<close> is not a candidate.
\<close>

theorem candidates_containment:
  "(R \<in> set (candidates t0 t1 data) \<longleftrightarrow>
      R \<in> set data \<and> start_validity R \<le> t0 \<and> stop_validity R \<ge> t1) \<and>
   (lastval_cover t0 t1 [R] = Inr (product_id R) \<longleftrightarrow>
      start_validity R \<le> t0 \<and> stop_validity R \<ge> t1) \<and>
   (t0 < start_validity R \<or> stop_validity R < t1 \<longrightarrow>
      R \<notin> set (candidates t0 t1 data) \<and>
      lastval_cover t0 t1 [R] = Inl (ValidityError (no_cover_message t0 t1)))"
  by (auto simp: candidates_def lastval_cover_def sort_reverse_def)

theorem candidates_containment_witness:
  "(let R = \<lparr>product_id = ''X'',
             generation_date = Datetime 2020 6 3 0 0 0 0,
             start_validity = Datetime 2020 6 1 0 0 0 0,
             stop_validity = Datetime 2020 6 2 0 0 0 0\<rparr>
    in R \<in> set (candidates (Datetime 2020 6 1 0 0 0 0) (Datetime 2020 6 2 0 0 0 0) [R]) \<and>
       lastval_cover (Datetime 2020 6 1 0 0 0 0) (Datetime 2020 6 2 0 0 0 0) [R] = Inr ''X'' \<and>
       R \<notin> set (candidates (Datetime 2020 6 1 0 0 0 0) (Datetime 2020 6 2 0 0 1 0) [R]) \<and>
       lastval_cover (Datetime 2020 6 1 0 0 0 0) (Datetime 2020 6 2 0 0 1 0) [R] =
         Inl (ValidityError
               (no_cover_message (Datetime 2020 6 1 0 0 0 0) (Datetime 2020 6 2 0 0 1 0))))"
  using
    candidates_containment[where
      R = "\<lparr>product_id = ''X'', generation_date = Datetime 2020 6 3 0 0 0 0,
        start_validity = Datetime 2020 6 1 0 0 0 0, stop_validity = Datetime 2020 6 2 0 0 0 0\<rparr>"
      and ?t0.0 = "Datetime 2020 6 1 0 0 0 0" and ?t1.0 = "Datetime 2020 6 2 0 0 0 0"
      and data = "[\<lparr>product_id = ''X'', generation_date = Datetime 2020 6 3 0 0 0 0,
         start_validity = Datetime 2020 6 1 0 0 0 0, stop_validity = Datetime 2020 6 2 0 0 0 0\<rparr>]"]
    candidates_containment[where
      R = "\<lparr>product_id = ''X'', generation_date = Datetime 2020 6 3 0 0 0 0,
        start_validity = Datetime 2020 6 1 0 0 0 0, stop_validity = Datetime 2020 6 2 0 0 0 0\<rparr>"
      and ?t0.0 = "Datetime 2020 6 1 0 0 0 0" and ?t1.0 = "Datetime 2020 6 2 0 0 1 0"
      and data = "[\<lparr>product_id = ''X'', generation_date = Datetime 2020 6 3 0 0 0 0,
         start_validity = Datetime 2020 6 1 0 0 0 0, stop_validity = Datetime 2020 6 2 0 0 0 0\<rparr>]"]
  by (simp add: Let_def)

text \<open>
  C2. When at least two records of the input cover the interval, that is, start at or
  before \<open>t0\<close> and stop at or after \<open>t1\<close>, and the generation dates of the covering
  records are pairwise distinct, the selector returns the identifier of the covering
  record of the input with the latest generation date, whatever the records that do not
  cover the interval are, and it returns that same identifier for every reordering of
  the input.
\<close>

theorem lastval_cover_latest:
  assumes "2 \<le> length [x \<leftarrow> data. start_validity x \<le> t0 \<and> stop_validity x \<ge> t1]"
    and "distinct (map generation_date
           [x \<leftarrow> data. start_validity x \<le> t0 \<and> stop_validity x \<ge> t1])"
  shows "\<exists>r \<in> set data.
           start_validity r \<le> t0 \<and> stop_validity r \<ge> t1 \<and>
           (\<forall>x \<in> set data. start_validity x \<le> t0 \<and> stop_validity x \<ge> t1 \<longrightarrow>
              generation_date x \<le> generation_date r) \<and>
           lastval_cover t0 t1 data = Inr (product_id r) \<and>
           (\<forall>data'. mset data' = mset data \<longrightarrow>
              lastval_cover t0 t1 data' = Inr (product_id r))"
proof -
  let ?cs = "candidates t0 t1 data"
  let ?G = "generation_date ` set ?cs"
  have d: "distinct (map generation_date ?cs)"
    using assms(2) unfolding candidates_filter .
  have ne: "?cs \<noteq> []" using assms(1) unfolding candidates_filter by auto
  then have "Max ?G \<in> ?G" by (intro Max_in) auto
  then obtain r where r: "r \<in> set ?cs" "generation_date r = Max ?G" by auto
  have mx: "\<forall>x \<in> set ?cs. generation_date x \<le> generation_date r"
    using r(2) by simp
  have here: "lastval_cover t0 t1 data = Inr (product_id r)"
    using r(1) mx d by (rule lastval_cover_distinct_max)
  have perm: "lastval_cover t0 t1 data' = Inr (product_id r)" if "mset data' = mset data" for data'
  proof -
    have m: "mset (candidates t0 t1 data') = mset ?cs"
      using that by (simp add: candidates_def)
    then have s: "set (candidates t0 t1 data') = set ?cs" by (rule mset_eq_setD)
    have "mset (map generation_date (candidates t0 t1 data')) = mset (map generation_date ?cs)"
      using m by simp
    then have "distinct (map generation_date (candidates t0 t1 data'))"
      using d by (metis mset_eq_imp_distinct_iff)
    then show ?thesis
      using r(1) mx s by (intro lastval_cover_distinct_max) simp_all
  qed
  have "r \<in> set data" "start_validity r \<le> t0 \<and> stop_validity r \<ge> t1"
    using r(1) by (simp_all add: set_candidates)
  moreover have "\<forall>x \<in> set data. start_validity x \<le> t0 \<and> stop_validity x \<ge> t1 \<longrightarrow>
              generation_date x \<le> generation_date r"
    using mx by (simp add: set_candidates)
  ultimately show ?thesis using here perm by blast
qed

theorem lastval_cover_latest_witness:
  "lastval_cover ex_t0 ex_t1 [ex_rec ''A'' 3, ex_out ''Z'' 9, ex_rec ''B'' 5] = Inr ''B'' \<and>
   lastval_cover ex_t0 ex_t1 [ex_out ''Z'' 9, ex_rec ''B'' 5, ex_rec ''A'' 3] = Inr ''B''"
proof -
  let ?data = "[ex_rec ''A'' 3, ex_out ''Z'' 9, ex_rec ''B'' 5]"
  have c: "[x \<leftarrow> ?data. start_validity x \<le> ex_t0 \<and> stop_validity x \<ge> ex_t1] =
      [ex_rec ''A'' 3, ex_rec ''B'' 5]"
    by (simp add: ex_rec_def ex_out_def ex_t0_def ex_t1_def)
  have 1: "2 \<le> length [x \<leftarrow> ?data. start_validity x \<le> ex_t0 \<and> stop_validity x \<ge> ex_t1]"
    unfolding c by simp
  have 2: "distinct (map generation_date
      [x \<leftarrow> ?data. start_validity x \<le> ex_t0 \<and> stop_validity x \<ge> ex_t1])"
    unfolding c by (simp add: ex_rec_def)
  obtain r where r: "r \<in> set ?data" "start_validity r \<le> ex_t0 \<and> stop_validity r \<ge> ex_t1"
    "\<forall>x \<in> set ?data. start_validity x \<le> ex_t0 \<and> stop_validity x \<ge> ex_t1 \<longrightarrow>
        generation_date x \<le> generation_date r"
    "\<forall>data'. mset data' = mset ?data \<longrightarrow> lastval_cover ex_t0 ex_t1 data' = Inr (product_id r)"
    using lastval_cover_latest[OF 1 2] by blast
  have "r \<noteq> ex_out ''Z'' 9"
    using r(2) by (auto simp: ex_out_def ex_t1_def)
  moreover have "r \<noteq> ex_rec ''A'' 3"
    using r(3) by (auto simp: ex_rec_def ex_t0_def ex_t1_def)
  ultimately have "r = ex_rec ''B'' 5" using r(1) by auto
  then have p: "product_id r = ''B''" by (simp add: ex_rec_def)
  have "lastval_cover ex_t0 ex_t1 ?data = Inr (product_id r)"
    using r(4) by blast
  moreover have "lastval_cover ex_t0 ex_t1 [ex_out ''Z'' 9, ex_rec ''B'' 5, ex_rec ''A'' 3] =
      Inr (product_id r)"
    using r(4) by (simp add: ac_simps)
  ultimately show ?thesis using p by simp
qed

text \<open>
  C3. When no record of the input covers the interval (the empty input included), the
  selector raises \<open>ValidityError\<close> with the message that renders the requested \<open>t0\<close>
  and \<open>t1\<close>, and returns no identifier.
\<close>

theorem lastval_cover_no_cover:
  assumes "\<forall>R \<in> set data. \<not> (start_validity R \<le> t0 \<and> stop_validity R \<ge> t1)"
  shows "lastval_cover t0 t1 data =
           Inl (ValidityError
                 (''none of the input products completely covers the requested '' @
                  ''time interval: [t0='' @ str_datetime t0 @ '', t1='' @ str_datetime t1 @ '']''))
         \<and> (\<forall>ident. lastval_cover t0 t1 data \<noteq> Inr ident)
         \<and> lastval_cover t0 t1 [] = lastval_cover t0 t1 data"
proof -
  have "candidates t0 t1 data = []"
    using assms by (auto simp: candidates_def filter_empty_conv)
  then show ?thesis
    by (simp add: lastval_cover_def no_cover_message_def candidates_def)
qed

theorem lastval_cover_no_cover_witness:
  "lastval_cover ex_t0 (Datetime 2020 6 2 0 0 1 0) [ex_rec ''A'' 3] =
     Inl (ValidityError
       (''none of the input products completely covers the requested time interval: '' @
        ''[t0=2020-06-01 00:00:00, t1=2020-06-02 00:00:01]''))"
proof -
  have "\<forall>R \<in> set [ex_rec ''A'' 3].
          \<not> (start_validity R \<le> ex_t0 \<and> stop_validity R \<ge> Datetime 2020 6 2 0 0 1 0)"
    by (simp add: ex_rec_def ex_t0_def)
  from lastval_cover_no_cover[OF this]
  have "lastval_cover ex_t0 (Datetime 2020 6 2 0 0 1 0) [ex_rec ''A'' 3] =
     Inl (ValidityError
           (''none of the input products completely covers the requested '' @
            ''time interval: [t0='' @ str_datetime ex_t0 @ '', t1='' @
            str_datetime (Datetime 2020 6 2 0 0 1 0) @ '']''))"
    by blast
  moreover have "str_datetime ex_t0 = ''2020-06-01 00:00:00''"
    unfolding ex_t0_def
    by (simp add: str_datetime_def zpad_digs digs_numeral digit_char_def char_of_eq_iff)
  moreover have "str_datetime (Datetime 2020 6 2 0 0 1 0) = ''2020-06-02 00:00:01''"
    by (simp add: str_datetime_def zpad_digs digs_numeral digit_char_def char_of_eq_iff)
  ultimately show ?thesis by simp
qed

text \<open>
  C10. Let a record of the input cover the interval, let every covering record before it
  in the input have an earlier generation date, and let no covering record after it have
  a later one. Then the selector returns the identifier of that record: of several
  covering records tied at the latest generation date, the earliest in the input wins,
  whatever the records that do not cover the interval are.
\<close>

theorem lastval_cover_tie_earliest:
  assumes "data = pre @ r # post"
    and "start_validity r \<le> t0 \<and> stop_validity r \<ge> t1"
    and "\<forall>x \<in> set pre. start_validity x \<le> t0 \<and> stop_validity x \<ge> t1 \<longrightarrow>
           generation_date x < generation_date r"
    and "\<forall>x \<in> set post. start_validity x \<le> t0 \<and> stop_validity x \<ge> t1 \<longrightarrow>
           generation_date x \<le> generation_date r"
  shows "lastval_cover t0 t1 data = Inr (product_id r)"
proof (rule lastval_cover_pick)
  show "candidates t0 t1 data = candidates t0 t1 pre @ r # candidates t0 t1 post"
    using assms(1,2) by (simp add: candidates_def)
  show "\<forall>x \<in> set (candidates t0 t1 pre). generation_date x < generation_date r"
    using assms(3) by (simp add: set_candidates)
  show "\<forall>x \<in> set (candidates t0 t1 post). generation_date x \<le> generation_date r"
    using assms(4) by (simp add: set_candidates)
qed

theorem lastval_cover_tie_earliest_witness:
  "lastval_cover ex_t0 ex_t1
     [ex_out ''Y'' 5, ex_rec ''A'' 3, ex_rec ''B'' 5, ex_out ''Z'' 9, ex_rec ''C'' 5, ex_rec ''D'' 4]
     = Inr ''B''"
proof -
  have "lastval_cover ex_t0 ex_t1
     ([ex_out ''Y'' 5, ex_rec ''A'' 3] @ ex_rec ''B'' 5 #
      [ex_out ''Z'' 9, ex_rec ''C'' 5, ex_rec ''D'' 4]) = Inr (product_id (ex_rec ''B'' 5))"
  proof (rule lastval_cover_tie_earliest[OF refl])
    show "start_validity (ex_rec ''B'' 5) \<le> ex_t0 \<and> stop_validity (ex_rec ''B'' 5) \<ge> ex_t1"
      by (simp add: ex_rec_def ex_t0_def ex_t1_def)
    show "\<forall>x \<in> set [ex_out ''Y'' 5, ex_rec ''A'' 3].
        start_validity x \<le> ex_t0 \<and> stop_validity x \<ge> ex_t1 \<longrightarrow>
        generation_date x < generation_date (ex_rec ''B'' 5)"
      by (simp add: ex_rec_def ex_out_def ex_t0_def ex_t1_def)
    show "\<forall>x \<in> set [ex_out ''Z'' 9, ex_rec ''C'' 5, ex_rec ''D'' 4].
        start_validity x \<le> ex_t0 \<and> stop_validity x \<ge> ex_t1 \<longrightarrow>
        generation_date x \<le> generation_date (ex_rec ''B'' 5)"
      by (simp add: ex_rec_def ex_out_def ex_t0_def ex_t1_def)
  qed
  then show ?thesis by (simp add: ex_rec_def)
qed

section \<open>Properties of the patterns\<close>

subsection \<open>First matches\<close>





















lemma is_stampE:
  assumes "is_stamp x"
  obtains a b where "x = a @ CHR ''T'' # b" "length a = 8" "length b = 6"
    "list_all is_digit a" "list_all is_digit b"
proof -
  have "x = take 8 x @ x ! 8 # drop 9 x"
    using assms id_take_nth_drop[of 8 x] by (simp add: is_stamp_def)
  then have "x = take 8 x @ CHR ''T'' # drop 9 x"
    using assms by (simp add: is_stamp_def)
  moreover have "length (take 8 x) = 8" "length (drop 9 x) = 6"
    using assms by (simp_all add: is_stamp_def)
  ultimately show ?thesis using that assms by (simp add: is_stamp_def)
qed


lemma is_digit_facts:
  assumes "is_digit c"
  shows "c \<noteq> CHR ''V''" "c \<noteq> CHR ''_''" "c \<noteq> CHR ''T''" "is_word c"
  using assms by (auto simp: is_digit_def is_word_def in_range_def)

lemma stamp_chars:
  assumes "is_stamp x"
  shows "\<forall>c \<in> set x. c \<noteq> CHR ''V''" "x \<noteq> []" "last x \<noteq> CHR ''_''" "hd x \<noteq> CHR ''V''"
proof -
  obtain a b where x: "x = a @ CHR ''T'' # b" "length a = 8" "length b = 6"
    "list_all is_digit a" "list_all is_digit b"
    using assms by (rule is_stampE)
  show "\<forall>c \<in> set x. c \<noteq> CHR ''V''"
    using x by (auto simp: list_all_iff dest: is_digit_facts)
  show "x \<noteq> []" using x by simp
  have "b \<noteq> []" using x(3) by auto
  then have "last x = last b" "last b \<in> set b" using x(1) by simp_all
  then show "last x \<noteq> CHR ''_''"
    using x(5) by (auto simp: list_all_iff dest: is_digit_facts)
  have "a \<noteq> []" using x(2) by auto
  then have "hd x = hd a" "hd a \<in> set a" using x(1) by simp_all
  then show "hd x \<noteq> CHR ''V''"
    using x(4) by (auto simp: list_all_iff dest: is_digit_facts)
qed

lemma ms_stamp:
  assumes "is_stamp x"
  shows "ms stamp_rx (x @ r) g = [(r, g)]"
proof -
  obtain a b where x: "x = a @ CHR ''T'' # b" "length a = 8" "length b = 6"
    "list_all is_digit a" "list_all is_digit b"
    using assms by (rule is_stampE)
  show ?thesis
    using x(2-) unfolding x(1) by (simp add: stamp_rx_def lit_def)
qed

lemma ms_Grp_stamp:
  assumes "is_stamp x"
  shows "ms (Grp n stamp_rx) (x @ r) g = [(r, g(n \<mapsto> x))]"
  using ms_stamp[OF assms] by simp

lemma default_pattern_unfold:
  "default_pattern =
     Seq (Chr (lit CHR ''S'')) (Seq (Chr (lit CHR ''1'')) (Seq (Chr is_word)
       (Seq (Star is_word) tail_rx)))"
  by (simp add: default_pattern_def tail_rx_def)

lemma star_rests_nonempty: "star_rests P s \<noteq> []"
  by (induction s) auto

lemma star_rests_suffix: "s' \<in> set (star_rests P s) \<Longrightarrow> \<exists>a. s = a @ s'"
proof (induction s)
  case Nil
  then show ?case by simp
next
  case (Cons c cs)
  then show ?case
    by (auto split: if_splits intro: exI[of _ "[]"])
qed

lemma concat_map_Eps: "concat (map ((\<lambda>(x, y). ms Eps x y) \<circ> f) xs) = map f xs"
  by (induction xs) auto

text \<open>What the part of the pattern after \<open>\w+\<close> yields on a well-formed rest.\<close>

lemma ms_tail_rx:
  assumes "is_stamp G" "is_stamp S" "is_stamp E"
  shows "ms tail_rx (CHR ''_'' # G @ CHR ''_'' # CHR ''V'' # S @ CHR ''_'' # E @ trailing) g =
     map (\<lambda>r. (r, g(''generation_date'' \<mapsto> G, ''start_validity'' \<mapsto> S, ''stop_validity'' \<mapsto> E)))
       (star_rests is_word trailing)"
  using ms_Grp_stamp[OF assms(1)] ms_Grp_stamp[OF assms(2)] ms_Grp_stamp[OF assms(3)]
  by (simp add: tail_rx_def lit_def concat_map_Eps del: ms.simps(7))

text \<open>What a text must look like for that part of the pattern to match it.\<close>

lemma ms_Chr_mem:
  "(s', g') \<in> set (ms (Chr P) s g) \<longleftrightarrow> (\<exists>c. s = c # s' \<and> P c \<and> g' = g)"
  by (auto split: list.splits)

lemma ms_Rep_mem:
  "(s', g') \<in> set (ms (Rep n P) s g) \<longleftrightarrow>
     n \<le> length s \<and> list_all P (take n s) \<and> s' = drop n s \<and> g' = g"
  by auto

lemma ms_Seq_mem:
  "(r, g') \<in> set (ms (Seq a b) s g) \<longleftrightarrow>
     (\<exists>s1 g1. (s1, g1) \<in> set (ms a s g) \<and> (r, g') \<in> set (ms b s1 g1))"
  by auto

lemma ms_Grp_mem:
  "(s', g') \<in> set (ms (Grp n a) s g) \<longleftrightarrow>
     (\<exists>g1. (s', g1) \<in> set (ms a s g) \<and> g' = g1(n \<mapsto> take (length s - length s') s))"
  by auto

lemma ms_stamp_rest:
  assumes "(s', g') \<in> set (ms stamp_rx s g)"
  shows "\<exists>x. s = x @ s' \<and> length x = 15"
proof -
  obtain c s2 where 1: "8 \<le> length s" "drop 8 s = c # s2" "6 \<le> length s2" "s' = drop 6 s2"
    using assms unfolding stamp_rx_def seqs.simps ms_Seq_mem ms_Rep_mem ms_Chr_mem
    by auto
  have "s = take 8 s @ drop 8 s" by simp
  also have "\<dots> = take 8 s @ c # (take 6 s2 @ drop 6 s2)" unfolding 1(2) by simp
  finally have "s = (take 8 s @ c # take 6 s2) @ s'" using 1(4) by simp
  moreover have "length (take 8 s @ c # take 6 s2) = 15" using 1(1,3) by simp
  ultimately show ?thesis by blast
qed

lemma ms_tail_rx_shape:
  assumes "ms tail_rx t g \<noteq> []"
  shows "\<exists>x y. t = CHR ''_'' # x @ CHR ''_'' # CHR ''V'' # y \<and> length x = 15"
proof -
  obtain s' g' where "(s', g') \<in> set (ms tail_rx t g)"
    using assms by (cases "ms tail_rx t g") auto
  then obtain t1 s2 g2 y where 1: "t = CHR ''_'' # t1"
    "(s2, g2) \<in> set (ms (Grp ''generation_date'' stamp_rx) t1 g)" "s2 = CHR ''_'' # CHR ''V'' # y"
    unfolding tail_rx_def seqs.simps ms_Seq_mem[of _ _ "Chr _"] ms_Seq_mem[of _ _ "Grp ''generation_date'' _"]
       ms_Chr_mem
    by (auto simp: lit_def simp del: ms.simps)
  then obtain g1 where "(s2, g1) \<in> set (ms stamp_rx t1 g)"
    unfolding ms_Grp_mem by blast
  then obtain x where "t1 = x @ s2" "length x = 15"
    using ms_stamp_rest by blast
  then show ?thesis using 1 by auto
qed

lemma has_marker_Cons:
  "has_marker (c # t) \<longleftrightarrow> (c = CHR ''_'' \<and> (\<exists>t'. t = CHR ''V'' # t')) \<or> has_marker t"
  by (cases t) auto

lemma has_marker_drop: "drop k z = CHR ''_'' # CHR ''V'' # y \<Longrightarrow> has_marker z"
proof (induction z arbitrary: k)
  case Nil
  then show ?case by simp
next
  case (Cons c z)
  show ?case
  proof (cases k)
    case 0
    then show ?thesis using Cons.prems by simp
  next
    case (Suc j)
    then have "has_marker z" using Cons by simp
    then show ?thesis by (simp add: has_marker_Cons)
  qed
qed

lemma has_marker_append:
  assumes "\<forall>c \<in> set x. c \<noteq> CHR ''V''" "x \<noteq> []" "last x \<noteq> CHR ''_''"
  shows "has_marker (x @ t) \<longleftrightarrow> has_marker t"
  using assms
proof (induction x)
  case Nil
  then show ?case by simp
next
  case (Cons c x)
  show ?case
  proof (cases "x = []")
    case True
    then show ?thesis using Cons.prems by (simp add: has_marker_Cons)
  next
    case False
    then obtain d x' where "x = d # x'" by (cases x) auto
    then show ?thesis using Cons by (auto simp: has_marker_Cons)
  qed
qed

text \<open>After the generation timestamp the pattern cannot match again.\<close>

lemma no_later_match:
  assumes "is_stamp G" "is_stamp S" "is_stamp E" "\<not> has_marker trailing"
    and "G @ CHR ''_'' # CHR ''V'' # S @ CHR ''_'' # E @ trailing = a @ b"
  shows "ms tail_rx b g = []"
proof (rule ccontr)
  let ?u = "G @ CHR ''_'' # CHR ''V'' # S @ CHR ''_'' # E @ trailing"
  let ?z = "CHR ''V'' # S @ CHR ''_'' # E @ trailing"
  assume "ms tail_rx b g \<noteq> []"
  then obtain x y where b: "b = CHR ''_'' # x @ CHR ''_'' # CHR ''V'' # y" "length x = 15"
    using ms_tail_rx_shape by blast
  have lG: "length G = 15" using assms(1) by (simp add: is_stamp_def)
  have "drop (length a + 16) ?u = CHR ''_'' # CHR ''V'' # y"
    unfolding assms(5) b(1) using b(2) by simp
  moreover have "drop (length a + 16) ?u = drop (length a) (drop 16 ?u)"
    by (simp only: drop_drop)
  moreover have "drop 16 ?u = ?z" using lG by simp
  ultimately have "has_marker ?z" using has_marker_drop by metis
  then have "has_marker (S @ CHR ''_'' # E @ trailing)"
    by (simp add: has_marker_Cons)
  then have "has_marker (CHR ''_'' # E @ trailing)"
    using has_marker_append[OF stamp_chars(1-3)[OF assms(2)]] by simp
  moreover have "\<not> (\<exists>t'. E @ trailing = CHR ''V'' # t')"
    using stamp_chars(2,4)[OF assms(3)] by (cases E) auto
  ultimately have "has_marker (E @ trailing)"
    by (simp add: has_marker_Cons)
  then have "has_marker trailing"
    using has_marker_append[OF stamp_chars(1-3)[OF assms(3)]] by simp
  then show False using assms(4) by simp
qed

lemma ms_Star_Seq:
  "ms (Seq (Star P) b) s g = concat (map (\<lambda>s'. ms b s' g) (star_rests P s))"
  by (simp add: comp_def)

lemma star_tail_none:
  assumes "\<And>a b. s = a @ b \<Longrightarrow> ms r b g = []"
  shows "ms (Seq (Star P) r) s g = []"
proof -
  have "ms r s' g = []" if h: "s' \<in> set (star_rests P s)" for s'
  proof -
    obtain a where "s = a @ s'" using h star_rests_suffix by blast
    then show ?thesis by (rule assms)
  qed
  then show ?thesis unfolding ms_Star_Seq by simp
qed

lemma star_tail_prefix:
  assumes "list_all P p" "ms (Seq (Star P) r) u g = x # xs"
  shows "\<exists>ys. ms (Seq (Star P) r) (p @ u) g = x # ys"
  using assms(1)
proof (induction p)
  case Nil
  then show ?case using assms(2) by simp
next
  case (Cons c p)
  then obtain ys where "ms (Seq (Star P) r) (p @ u) g = x # ys" by auto
  then show ?case using Cons.prems unfolding ms_Star_Seq by simp
qed

lemma ms_Chr_Seq: "ms (Seq (Chr P) b) (c # cs) g = (if P c then ms b cs g else [])"
  by simp

text \<open>The match of the default pattern on a well-formed identifier.\<close>

lemma re_match_identifier:
  assumes "p \<noteq> []" "list_all is_word p"
    and "is_stamp G" "is_stamp S" "is_stamp E" "\<not> has_marker trailing"
  shows "re_match default_pattern
           (''S1'' @ p @ ''_'' @ G @ ''_V'' @ S @ ''_'' @ E @ trailing) =
         Some \<lparr>names = [''generation_date'', ''start_validity'', ''stop_validity''],
               captured = [''generation_date'' \<mapsto> G, ''start_validity'' \<mapsto> S,
                           ''stop_validity'' \<mapsto> E]\<rparr>"
proof -
  let ?g = "[''generation_date'' \<mapsto> G, ''start_validity'' \<mapsto> S, ''stop_validity'' \<mapsto> E]"
  let ?u1 = "G @ CHR ''_'' # CHR ''V'' # S @ CHR ''_'' # E @ trailing"
  let ?SR = "Seq (Star is_word) tail_rx"
  obtain c p' where p: "p = c # p'" "is_word c" "list_all is_word p'"
    using assms(1,2) by (cases p) auto
  obtain r0 rs where sr: "star_rests is_word trailing = r0 # rs"
    using star_rests_nonempty[of is_word trailing] by (cases "star_rests is_word trailing") auto
  have later: "ms ?SR ?u1 Map.empty = []"
    by (rule star_tail_none) (rule no_later_match[OF assms(3-6)])
  have w: "is_word CHR ''_''" by (simp add: is_word_def)
  have "ms ?SR (CHR ''_'' # ?u1) Map.empty = ms ?SR ?u1 Map.empty @ ms tail_rx (CHR ''_'' # ?u1) Map.empty"
    unfolding ms_Star_Seq using w by simp
  then have "ms ?SR (CHR ''_'' # ?u1) Map.empty = (r0, ?g) # map (\<lambda>r. (r, ?g)) rs"
    unfolding later ms_tail_rx[OF assms(3-5)] sr by simp
  then obtain ys where "ms ?SR (p' @ CHR ''_'' # ?u1) Map.empty = (r0, ?g) # ys"
    using star_tail_prefix[OF p(3)] by blast
  then have "ms default_pattern (''S1'' @ p @ ''_'' @ G @ ''_V'' @ S @ ''_'' @ E @ trailing) Map.empty
      = (r0, ?g) # ys"
    unfolding default_pattern_unfold p(1) using p(2) by (simp add: lit_def ms_Chr_Seq del: ms.simps(3))
  moreover have "group_names default_pattern = [''generation_date'', ''start_validity'', ''stop_validity'']"
    by (simp add: default_pattern_def stamp_rx_def)
  ultimately show ?thesis by (simp add: re_match_def)
qed

subsection \<open>The loop of the parser\<close>

lemma validity_data_product_id: "validity_data pid m = Inr info \<Longrightarrow> product_id info = pid"
  by (auto simp: validity_data_def split: sum.splits)

lemma validity_data_parses:
  assumes "re_match pat pid = Some m"
  shows "validity_data pid m = Inr info \<longleftrightarrow>
     info = \<lparr>product_id = pid, generation_date = generation_date info,
             start_validity = start_validity info, stop_validity = stop_validity info\<rparr> \<and>
     parses_to pat pid (generation_date info) (start_validity info) (stop_validity info)"
  using assms by (auto simp: validity_data_def parses_to_def split: sum.splits)

lemma parses_to_validity_data:
  assumes "parses_to pat pid gd sv ev"
  shows "\<exists>m. re_match pat pid = Some m \<and>
     validity_data pid m = Inr \<lparr>product_id = pid, generation_date = gd,
                                 start_validity = sv, stop_validity = ev\<rparr>"
  using assms by (auto simp: validity_data_def parses_to_def split: option.splits)

lemma loop_step_ok:
  assumes "parses_to pat pid gd sv ev"
  shows "get_validity_loop pat (pid # products) out =
     get_validity_loop pat products
       (out @ [\<lparr>product_id = pid, generation_date = gd, start_validity = sv, stop_validity = ev\<rparr>])"
  using parses_to_validity_data[OF assms] by auto

lemma loop_all_ok:
  assumes "\<forall>pid \<in> set products. \<exists>gd sv ev. parses_to pat pid gd sv ev"
  shows "\<exists>infos. get_validity_loop pat products out = Inr (out @ infos) \<and>
     length infos = length products \<and>
     (\<forall>i < length products. product_id (infos ! i) = products ! i \<and>
        parses_to pat (products ! i) (generation_date (infos ! i))
          (start_validity (infos ! i)) (stop_validity (infos ! i)))"
  using assms
proof (induction products arbitrary: out)
  case Nil
  then show ?case by simp
next
  case (Cons pid products)
  obtain gd sv ev where p: "parses_to pat pid gd sv ev" using Cons.prems by auto
  let ?info = "\<lparr>product_id = pid, generation_date = gd, start_validity = sv, stop_validity = ev\<rparr>"
  obtain infos where i: "get_validity_loop pat products (out @ [?info]) = Inr ((out @ [?info]) @ infos)"
    "length infos = length products"
    "\<forall>i < length products. product_id (infos ! i) = products ! i \<and>
        parses_to pat (products ! i) (generation_date (infos ! i))
          (start_validity (infos ! i)) (stop_validity (infos ! i))"
    using Cons.IH[of "out @ [?info]"] Cons.prems by auto
  have "get_validity_loop pat (pid # products) out = Inr (out @ ?info # infos)"
    using loop_step_ok[OF p] i(1) by simp
  moreover have "\<forall>i < length (pid # products). product_id ((?info # infos) ! i) = (pid # products) ! i \<and>
        parses_to pat ((pid # products) ! i) (generation_date ((?info # infos) ! i))
          (start_validity ((?info # infos) ! i)) (stop_validity ((?info # infos) ! i))"
    using i(3) p by (auto simp: nth_Cons')
  ultimately show ?case using i(2) by (intro exI[of _ "?info # infos"]) simp
qed

lemma loop_prefix_ok:
  assumes "\<forall>pid \<in> set pre. \<exists>gd sv ev. parses_to pat pid gd sv ev"
  shows "\<exists>infos. get_validity_loop pat (pre @ rest) out = get_validity_loop pat rest (out @ infos)"
  using assms
proof (induction pre arbitrary: out)
  case Nil
  then show ?case by (intro exI[of _ "[]"]) simp
next
  case (Cons pid pre)
  obtain gd sv ev where p: "parses_to pat pid gd sv ev" using Cons.prems by auto
  show ?case
    using Cons.IH Cons.prems unfolding append_Cons loop_step_ok[OF p]
    by (metis append.assoc list.set_intros(2))
qed

lemma loop_no_match:
  assumes "re_match pat bad = None"
  shows "get_validity_loop pat (bad # post) out = Inl (ValueError (no_match_message bad))"
  using assms by simp

lemma loop_fails:
  assumes "re_match pat bad = None"
  shows "\<exists>e. get_validity_loop pat (pre @ bad # post) out = Inl e"
proof (induction pre arbitrary: out)
  case Nil
  then show ?case using assms by simp
next
  case (Cons pid pre)
  then show ?case by (auto split: option.splits sum.splits)
qed

lemma strptime_error: "strptime text = Inl e \<Longrightarrow> e = StrptimeValueError text"
  by (auto simp: strptime_def Let_def split: list.splits if_splits)

lemma parse_group_error:
  "parse_group m name = Inl e \<Longrightarrow> e = IndexError \<or> e = TypeError \<or> (\<exists>t. e = StrptimeValueError t)"
  by (auto simp: parse_group_def group_def split: sum.splits option.splits if_splits dest: strptime_error)

lemma validity_data_error:
  "validity_data pid m = Inl e \<Longrightarrow> e = IndexError \<or> e = TypeError \<or> (\<exists>t. e = StrptimeValueError t)"
  by (auto simp: validity_data_def split: sum.splits dest: parse_group_error)

lemma loop_error:
  "get_validity_loop pat products out = Inl e \<Longrightarrow>
     e = IndexError \<or> e = TypeError \<or> (\<exists>t. e = StrptimeValueError t) \<or> (\<exists>t. e = ValueError t)"
proof (induction products arbitrary: out)
  case Nil
  then show ?case by simp
next
  case (Cons pid products)
  then show ?case
    by (auto split: option.splits sum.splits dest: validity_data_error)
qed

lemma the_pattern_None: "the_pattern None = default_pattern"
  by (simp add: the_pattern_def)

lemma parses_to_identifier:
  assumes "p \<noteq> []" "list_all is_word p"
    and "is_stamp G" "is_stamp S" "is_stamp E" "\<not> has_marker trailing"
    and "strptime G = Inr gd" "strptime S = Inr sv" "strptime E = Inr ev"
  shows "parses_to default_pattern
           (''S1'' @ p @ ''_'' @ G @ ''_V'' @ S @ ''_'' @ E @ trailing) gd sv ev"
  unfolding parses_to_def re_match_identifier[OF assms(1-6)]
  using assms(7-9) by (simp add: parse_group_def group_def)


lemma get_validity_loop_unparsed:
  assumes "p \<noteq> []" "list_all is_word p"
    and "is_stamp G" "is_stamp S" "is_stamp E" "\<not> has_marker trailing"
    and "strptime G = Inl e"
  shows "get_validity_loop default_pattern
     ((''S1'' @ p @ ''_'' @ G @ ''_V'' @ S @ ''_'' @ E @ trailing) # rest) out = Inl e"
  unfolding get_validity_loop.simps re_match_identifier[OF assms(1-6)]
  using assms(7) by (simp add: validity_data_def parse_group_def group_def)

lemmas cls = is_digit_def in_range_def lit_def is_word_def
lemmas strp = strptime_def DATE_FMT_rx_def dir_Y_def dir_m_def dir_d_def dir_H_def dir_M_def
  dir_S_def lit_T_def two_def field_def py_int_def nat_of_digits_def
  digit_val_def valid_datetime_def days_in_month_def DAYS_IN_MONTH_def is_leap_def

lemma bad_month: "strptime ''20201301T000000'' = Inl (StrptimeValueError ''20201301T000000'')"
  by (simp add: strp cls)

lemma bad_month_identifier:
  "get_validity_loop default_pattern
     (''S1A_20201301T000000_V20200101T000000_20200102T000000'' # rest) out =
   Inl (StrptimeValueError ''20201301T000000'')"
  using get_validity_loop_unparsed[of "''A''" "''20201301T000000''" "''20200101T000000''"
      "''20200102T000000''" "[]" _ rest out, OF _ _ _ _ _ _ bad_month]
  by (simp add: is_stamp_def cls)

subsection \<open>Timestamps that \<^verbatim>\<open>strptime\<close> accepts\<close>












lemma group_names_two [simp]: "group_names (two P Q) = []"
  by (simp add: two_def)













subsection \<open>Later runs of timestamps\<close>

























section \<open>Properties of the identifier parser\<close>




text \<open>
  C6. When the pattern matches every identifier of the input and \<^verbatim>\<open>strptime\<close> accepts the
  three timestamps of each, the parser returns one record per input string, in the
  order of the input, each with its identifier as \<open>product_id\<close> and with the three
  date-times read from it.
\<close>

theorem get_validity_info_one_per_input:
  assumes "\<forall>pid \<in> set products. \<exists>gd sv ev. parses_to (the_pattern pattern) pid gd sv ev"
  shows "\<exists>out. get_validity_info products pattern = Inr out \<and>
           length out = length products \<and>
           (\<forall>i < length products.
              product_id (out ! i) = products ! i \<and>
              parses_to (the_pattern pattern) (products ! i) (generation_date (out ! i))
                (start_validity (out ! i)) (stop_validity (out ! i)))"
  using loop_all_ok[OF assms, of "[]"] by (simp add: get_validity_info_def)

theorem get_validity_info_one_per_input_witness:
  "\<exists>out. get_validity_info
       [''S1A_AUX_POEORB_20200101T120000_V20191231T225942_20200102T015942'',
        ''S1A_X_20200103T120000_V20200102T225942_20200104T015942''] None = Inr out \<and>
     length out = 2 \<and>
     product_id (out ! 0) = ''S1A_AUX_POEORB_20200101T120000_V20191231T225942_20200102T015942'' \<and>
     product_id (out ! 1) = ''S1A_X_20200103T120000_V20200102T225942_20200104T015942''"
proof -
  have s: "strptime ''20200101T120000'' = Inr (Datetime 2020 1 1 12 0 0 0)"
    "strptime ''20191231T225942'' = Inr (Datetime 2019 12 31 22 59 42 0)"
    "strptime ''20200102T015942'' = Inr (Datetime 2020 1 2 1 59 42 0)"
    "strptime ''20200103T120000'' = Inr (Datetime 2020 1 3 12 0 0 0)"
    "strptime ''20200102T225942'' = Inr (Datetime 2020 1 2 22 59 42 0)"
    "strptime ''20200104T015942'' = Inr (Datetime 2020 1 4 1 59 42 0)"
    by (simp_all add: strp cls)
  have 1: "parses_to default_pattern ''S1A_AUX_POEORB_20200101T120000_V20191231T225942_20200102T015942''
      (Datetime 2020 1 1 12 0 0 0) (Datetime 2019 12 31 22 59 42 0) (Datetime 2020 1 2 1 59 42 0)"
    using parses_to_identifier[of "''A_AUX_POEORB''"
        "''20200101T120000''" "''20191231T225942''" "''20200102T015942''" "[]", OF _ _ _ _ _ _ s(1-3)]
    by (simp add: is_stamp_def cls)
  have 2: "parses_to default_pattern ''S1A_X_20200103T120000_V20200102T225942_20200104T015942''
      (Datetime 2020 1 3 12 0 0 0) (Datetime 2020 1 2 22 59 42 0) (Datetime 2020 1 4 1 59 42 0)"
    using parses_to_identifier[of "''A_X''"
        "''20200103T120000''" "''20200102T225942''" "''20200104T015942''" "[]", OF _ _ _ _ _ _ s(4-6)]
    by (simp add: is_stamp_def cls)
  have "\<forall>pid \<in> set [''S1A_AUX_POEORB_20200101T120000_V20191231T225942_20200102T015942'',
        ''S1A_X_20200103T120000_V20200102T225942_20200104T015942''].
      \<exists>gd sv ev. parses_to (the_pattern None) pid gd sv ev"
    using 1 2 unfolding the_pattern_None by (simp del: One_nat_def) blast
  from get_validity_info_one_per_input[OF this]
  show ?thesis by (auto simp: nth_Cons')
qed

text \<open>
  The default pattern matches an identifier whose generation timestamp names month 13;
  \<^verbatim>\<open>strptime\<close> rejects the timestamp and no record is returned.
\<close>

theorem all_match_unparsed:
  "re_match default_pattern ''S1A_20201301T000000_V20200101T000000_20200102T000000'' \<noteq> None \<and>
   get_validity_info [''S1A_20201301T000000_V20200101T000000_20200102T000000''] None =
     Inl (StrptimeValueError ''20201301T000000'')"
proof
  show "re_match default_pattern ''S1A_20201301T000000_V20200101T000000_20200102T000000'' \<noteq> None"
    using re_match_identifier[of "''A''" "''20201301T000000''" "''20200101T000000''"
      "''20200102T000000''" "[]"]
    by (simp add: is_stamp_def cls)
  show "get_validity_info [''S1A_20201301T000000_V20200101T000000_20200102T000000''] None =
     Inl (StrptimeValueError ''20201301T000000'')"
    by (simp only: get_validity_info_def the_pattern_None bad_month_identifier)
qed

text \<open>
  C4. A batch that holds an identifier which the pattern does not match makes the parser
  fail, with no record returned for any element. When every identifier before it is
  matched and carries three timestamps that \<^verbatim>\<open>strptime\<close> accepts, the failure is the
  \<^verbatim>\<open>ValueError\<close> whose message quotes that identifier.
\<close>

theorem get_validity_info_fail_fast:
  assumes "products = pre @ bad # post"
    and "re_match (the_pattern pattern) bad = None"
  shows "(\<exists>e. get_validity_info products pattern = Inl e) \<and>
         ((\<forall>pid \<in> set pre. \<exists>gd sv ev. parses_to (the_pattern pattern) pid gd sv ev) \<longrightarrow>
            get_validity_info products pattern =
              Inl (ValueError ([CHR 0x22] @ bad @ [CHR 0x22] @
                     '' does not math the regular expression for validity'')))"
proof
  show "\<exists>e. get_validity_info products pattern = Inl e"
    unfolding get_validity_info_def assms(1) by (rule loop_fails[OF assms(2)])
  show "(\<forall>pid \<in> set pre. \<exists>gd sv ev. parses_to (the_pattern pattern) pid gd sv ev) \<longrightarrow>
            get_validity_info products pattern =
              Inl (ValueError ([CHR 0x22] @ bad @ [CHR 0x22] @
                     '' does not math the regular expression for validity''))"
  proof
    assume "\<forall>pid \<in> set pre. \<exists>gd sv ev. parses_to (the_pattern pattern) pid gd sv ev"
    then obtain infos where
      "get_validity_loop (the_pattern pattern) (pre @ bad # post) [] =
         get_validity_loop (the_pattern pattern) (bad # post) ([] @ infos)"
      using loop_prefix_ok by blast
    then show "get_validity_info products pattern =
              Inl (ValueError ([CHR 0x22] @ bad @ [CHR 0x22] @
                     '' does not math the regular expression for validity''))"
      unfolding get_validity_info_def assms(1) loop_no_match[OF assms(2)]
      by (simp add: no_match_message_def)
  qed
qed

lemma bad_no_match: "re_match default_pattern ''bad'' = None"
  by (simp add: re_match_def default_pattern_def cls)

theorem get_validity_info_fail_fast_witness:
  "get_validity_info
     [''S1A_AUX_POEORB_20200101T120000_V20191231T225942_20200102T015942'', ''bad'',
      ''S1A_X_20200103T120000_V20200102T225942_20200104T015942''] None =
   Inl (ValueError ([CHR 0x22] @ ''bad'' @ [CHR 0x22] @
          '' does not math the regular expression for validity''))"
proof -
  have s: "strptime ''20200101T120000'' = Inr (Datetime 2020 1 1 12 0 0 0)"
    "strptime ''20191231T225942'' = Inr (Datetime 2019 12 31 22 59 42 0)"
    "strptime ''20200102T015942'' = Inr (Datetime 2020 1 2 1 59 42 0)"
    by (simp_all add: strp cls)
  have 1: "parses_to default_pattern ''S1A_AUX_POEORB_20200101T120000_V20191231T225942_20200102T015942''
      (Datetime 2020 1 1 12 0 0 0) (Datetime 2019 12 31 22 59 42 0) (Datetime 2020 1 2 1 59 42 0)"
    using parses_to_identifier[of "''A_AUX_POEORB''"
        "''20200101T120000''" "''20191231T225942''" "''20200102T015942''" "[]", OF _ _ _ _ _ _ s(1-3)]
    by (simp add: is_stamp_def cls)
  have pre: "\<forall>pid \<in> set [''S1A_AUX_POEORB_20200101T120000_V20191231T225942_20200102T015942''].
      \<exists>gd sv ev. parses_to (the_pattern None) pid gd sv ev"
    using 1 unfolding the_pattern_None by (simp del: One_nat_def) blast
  have split: "[''S1A_AUX_POEORB_20200101T120000_V20191231T225942_20200102T015942'', ''bad'',
      ''S1A_X_20200103T120000_V20200102T225942_20200104T015942''] =
     [''S1A_AUX_POEORB_20200101T120000_V20191231T225942_20200102T015942''] @ ''bad'' #
     [''S1A_X_20200103T120000_V20200102T225942_20200104T015942'']"
    by simp
  have nm: "re_match (the_pattern None) ''bad'' = None"
    unfolding the_pattern_None by (rule bad_no_match)
  show ?thesis
    using get_validity_info_fail_fast[OF split nm] pre by blast
qed

text \<open>
  An identifier that the pattern matches but whose timestamp \<^verbatim>\<open>strptime\<close> rejects, standing
  before the identifier that does not match: the parser fails on the earlier one, with
  the error of \<^verbatim>\<open>strptime\<close>, which does not name the identifier that does not match.
\<close>

theorem fail_fast_earlier_error:
  "re_match default_pattern ''bad'' = None \<and>
   get_validity_info
     [''S1A_20201301T000000_V20200101T000000_20200102T000000'', ''bad''] None =
     Inl (StrptimeValueError ''20201301T000000'') \<and>
   get_validity_info
     [''S1A_20201301T000000_V20200101T000000_20200102T000000'', ''bad''] None \<noteq>
     Inl (ValueError ([CHR 0x22] @ ''bad'' @ [CHR 0x22] @
            '' does not math the regular expression for validity''))"
  by (simp only: get_validity_info_def the_pattern_None bad_month_identifier bad_no_match) simp

text \<open>
  C9. The error of the selector is a \<open>ValidityError\<close>; no error of the parser is one, and
  the error of the parser on an identifier that does not match is a plain
  \<^verbatim>\<open>ValueError\<close>. So \<^verbatim>\<open>isinstance(e, ValidityError)\<close> tells the two apart.
\<close>

theorem error_types_distinct:
  "(lastval_cover t0 t1 data = Inl e \<longrightarrow>
      type_of e = ValidityError_class \<and> isinstance e ValidityError_class) \<and>
   (get_validity_info products pattern = Inl e' \<longrightarrow>
      type_of e' \<noteq> ValidityError_class \<and> \<not> isinstance e' ValidityError_class) \<and>
   (re_match (the_pattern pattern) pid = None \<longrightarrow>
      get_validity_info [pid] pattern = Inl (ValueError (no_match_message pid)) \<and>
      type_of (ValueError (no_match_message pid)) = ValueError_class)"
proof (intro conjI impI)
  assume "lastval_cover t0 t1 data = Inl e"
  then have "e = ValidityError (no_cover_message t0 t1)"
    by (auto simp: lastval_cover_def Let_def sort_reverse_def sort_key_Nil_iff
        split: if_splits list.splits)
  then show "type_of e = ValidityError_class" "isinstance e ValidityError_class"
    by (simp_all add: isinstance_def)
next
  assume "get_validity_info products pattern = Inl e'"
  then have "e' = IndexError \<or> e' = TypeError \<or> (\<exists>t. e' = StrptimeValueError t) \<or>
      (\<exists>t. e' = ValueError t)"
    unfolding get_validity_info_def by (rule loop_error)
  then show "type_of e' \<noteq> ValidityError_class" "\<not> isinstance e' ValidityError_class"
    by (auto simp: isinstance_def)
next
  assume "re_match (the_pattern pattern) pid = None"
  then show "get_validity_info [pid] pattern = Inl (ValueError (no_match_message pid))"
    by (simp add: get_validity_info_def)
  show "type_of (ValueError (no_match_message pid)) = ValueError_class" by simp
qed

theorem error_types_distinct_witness:
  "(\<exists>e. lastval_cover ex_t0 ex_t1 [] = Inl e \<and> type_of e = ValidityError_class) \<and>
   (\<exists>e'. get_validity_info [''bad''] None = Inl e' \<and> type_of e' = ValueError_class \<and>
      \<not> isinstance e' ValidityError_class)"
proof -
  have 1: "lastval_cover ex_t0 ex_t1 [] = Inl (ValidityError (no_cover_message ex_t0 ex_t1))"
    by (simp add: lastval_cover_def candidates_def)
  have 2: "re_match (the_pattern None) ''bad'' = None"
    unfolding the_pattern_None by (rule bad_no_match)
  show ?thesis
    using error_types_distinct[of ex_t0 ex_t1 "[]" "ValidityError (no_cover_message ex_t0 ex_t1)"
        "[''bad'']" None "ValueError (no_match_message ''bad'')" "''bad''"] 1 2
    by simp
qed

section \<open>Properties of the store model\<close>

text \<open>
  C8. The call leaves every list object of the caller as it was, the input sequence
  among them: the store after the call is the store before it with one new object, the
  candidate list, which is the only one sorted. The result is the value of the pure
  function \<open>lastval_cover\<close> on the arguments.
\<close>

theorem lastval_cover_frame:
  "fst (lastval_cover_st t0 t1 data h) = lastval_cover t0 t1 (deref h data) \<and>
   take (length h) (snd (lastval_cover_st t0 t1 data h)) = h \<and>
   length (snd (lastval_cover_st t0 t1 data h)) = Suc (length h) \<and>
   (data < length h \<longrightarrow> deref (snd (lastval_cover_st t0 t1 data h)) data = deref h data)"
  by (simp add: lastval_cover_st_def lastval_cover_def candidates_def alloc_def deref_def
      assign_def Let_def nth_append split: list.splits)

theorem lastval_cover_frame_witness:
  "fst (lastval_cover_st ex_t0 ex_t1 0 [[ex_rec ''A'' 3, ex_rec ''B'' 5]]) = Inr ''B'' \<and>
   deref (snd (lastval_cover_st ex_t0 ex_t1 0 [[ex_rec ''A'' 3, ex_rec ''B'' 5]])) 0 =
     [ex_rec ''A'' 3, ex_rec ''B'' 5] \<and>
   deref (snd (lastval_cover_st ex_t0 ex_t1 0 [[ex_rec ''A'' 3, ex_rec ''B'' 5]])) 1 =
     [ex_rec ''B'' 5, ex_rec ''A'' 3]"
proof -
  have l: "lastval_cover ex_t0 ex_t1 [ex_rec ''A'' 3, ex_rec ''B'' 5] = Inr ''B''"
    by (simp add: lastval_cover_def candidates_def sort_reverse_def ex_rec_def ex_t0_def ex_t1_def)
  have s: "deref (snd (lastval_cover_st ex_t0 ex_t1 0 [[ex_rec ''A'' 3, ex_rec ''B'' 5]])) 1 =
     [ex_rec ''B'' 5, ex_rec ''A'' 3]"
    by (simp add: lastval_cover_st_def alloc_def deref_def assign_def sort_reverse_def
        ex_rec_def ex_t0_def ex_t1_def)
  show ?thesis
    using lastval_cover_frame[of ex_t0 ex_t1 0 "[[ex_rec ''A'' 3, ex_rec ''B'' 5]]"] l s
    by (simp add: deref_def)
qed

section \<open>Properties of the orchestration\<close>

lemma query_orbit_call:
  assumes "satellite_id \<in> {''S1A'', ''S1B''}" "product_type \<in> {''AUX_POEORB'', ''AUX_RESORB''}"
  shows "query_orbit api lo hi satellite_id product_type s =
     api \<lparr>producttype = product_type, platformserialidentifier = drop 1 satellite_id,
          date = (lo, hi)\<rparr> s"
  using assms by (simp add: query_orbit_def)

lemma lastval_cover_chosen:
  assumes "lastval_cover t0 t1 data = Inr pid"
  shows "\<exists>r \<in> set data. product_id r = pid \<and> start_validity r \<le> t0 \<and> t1 \<le> stop_validity r"
proof -
  obtain c cs where "sort_reverse generation_date (candidates t0 t1 data) = c # cs" "pid = product_id c"
    using assms by (auto simp: lastval_cover_def Let_def split: if_splits list.splits)
  then have "c \<in> set (sort_reverse generation_date (candidates t0 t1 data))" by simp
  then have "c \<in> set (candidates t0 t1 data)" by (simp add: sort_reverse_def)
  then show ?thesis using \<open>pid = product_id c\<close> by (auto simp: candidates_def)
qed

lemma select_orbit_covers:
  assumes "select_orbit products t0 t1 = Inr sel"
  shows "\<exists>infos. get_validity_info (map (\<lambda>(k, p). identifier p) products) None = Inr infos \<and>
     (\<forall>(k, v) \<in> set sel. (k, v) \<in> set products \<and>
        (\<exists>r \<in> set infos. product_id r = identifier v \<and>
           start_validity r \<le> t0 \<and> t1 \<le> stop_validity r))"
proof -
  obtain infos pid where i: "get_validity_info (map (\<lambda>(k, p). identifier p) products) None = Inr infos"
    "lastval_cover t0 t1 infos = Inr pid" "sel = [(k, v) \<leftarrow> products. identifier v = pid]"
    using assms by (auto simp: select_orbit_def Let_def split: sum.splits)
  obtain r where "r \<in> set infos" "product_id r = pid" "start_validity r \<le> t0" "t1 \<le> stop_validity r"
    using lastval_cover_chosen[OF i(2)] by blast
  then show ?thesis using i(1,3) by auto
qed

lemma loop_results_parse:
  assumes "get_validity_loop pat products out = Inr res"
  shows "\<forall>r \<in> set res. r \<in> set out \<or>
     parses_to pat (product_id r) (generation_date r) (start_validity r) (stop_validity r)"
  using assms
proof (induction products arbitrary: out)
  case Nil
  then show ?case by simp
next
  case (Cons pid products)
  obtain m info where m: "re_match pat pid = Some m" "validity_data pid m = Inr info"
    "get_validity_loop pat products (out @ [info]) = Inr res"
    using Cons.prems by (auto split: option.splits sum.splits)
  have p: "parses_to pat (product_id info) (generation_date info) (start_validity info) (stop_validity info)"
    using validity_data_parses[OF m(1), of info] m(2) validity_data_product_id[OF m(2)] by simp
  show ?case
    using Cons.IH[OF m(3)] p by auto
qed

text \<open>
  C7. For a product with window \<open>(t0, t1)\<close>, a mission and a product type that pass the
  assertions of \<^verbatim>\<open>query_orbit\<close>, and margins that keep \<open>t0 - t0_margin\<close> and
  \<open>t1 + t1_margin\<close> in the range of \<^verbatim>\<open>datetime\<close>: the catalog is asked once, for the interval
  from \<open>t0 - t0_margin\<close> to \<open>t1 + t1_margin\<close>; what it answers is narrowed by
  \<^verbatim>\<open>_select_orbit\<close> with the original \<open>t0\<close> and \<open>t1\<close>, so that every entry returned has a
  validity that covers \<open>(t0, t1)\<close> itself; and a margin left out is one day.
\<close>

theorem query_orbit_for_product_widens:
  assumes "dt_sub (start_time p) t0_margin = Inr lo"
    and "dt_add (stop_time p) t1_margin = Inr hi"
    and "mission p \<in> {''S1A'', ''S1B''}"
    and "product_type \<in> {''AUX_POEORB'', ''AUX_RESORB''}"
  shows "query_orbit_for_product S1Product api (Inr p) (Some product_type)
           (Some t0_margin) (Some t1_margin) s =
         (case api \<lparr>producttype = product_type, platformserialidentifier = drop 1 (mission p),
                     date = (lo, hi)\<rparr> s of
            (Inl e, s') \<Rightarrow> (Inl e, s')
          | (Inr products, s') \<Rightarrow> (select_orbit products (start_time p) (stop_time p), s')) \<and>
         snd (query_orbit_for_product S1Product (recording_api answer) (Inr p) (Some product_type)
                (Some t0_margin) (Some t1_margin) log) =
           log @ [\<lparr>producttype = product_type, platformserialidentifier = drop 1 (mission p),
                    date = (lo, hi)\<rparr>] \<and>
         (\<forall>sel s'. query_orbit_for_product S1Product api (Inr p) (Some product_type)
                      (Some t0_margin) (Some t1_margin) s = (Inr sel, s') \<longrightarrow>
            (\<forall>(k, v) \<in> set sel.
               \<exists>gd sv ev. parses_to default_pattern (identifier v) gd sv ev \<and>
                 sv \<le> start_time p \<and> stop_time p \<le> ev)) \<and>
         query_orbit_for_product S1Product api (Inr p) (Some product_type) None None s =
           query_orbit_for_product S1Product api (Inr p) (Some product_type)
             (Some (Timedelta 1 0 0)) (Some (Timedelta 1 0 0)) s"
proof (intro conjI allI impI)
  let ?q = "\<lparr>producttype = product_type, platformserialidentifier = drop 1 (mission p),
             date = (lo, hi)\<rparr>"
  show "query_orbit_for_product S1Product api (Inr p) (Some product_type)
           (Some t0_margin) (Some t1_margin) s =
         (case api ?q s of
            (Inl e, s') \<Rightarrow> (Inl e, s')
          | (Inr products, s') \<Rightarrow> (select_orbit products (start_time p) (stop_time p), s'))"
    using assms(1,2) by (simp add: query_orbit_for_product_def query_orbit_call[OF assms(3,4)])
  show "snd (query_orbit_for_product S1Product (recording_api answer) (Inr p) (Some product_type)
                (Some t0_margin) (Some t1_margin) log) = log @ [?q]"
    using assms(1,2)
    by (simp add: query_orbit_for_product_def query_orbit_call[OF assms(3,4)] recording_api_def)
  show "query_orbit_for_product S1Product api (Inr p) (Some product_type) None None s =
           query_orbit_for_product S1Product api (Inr p) (Some product_type)
             (Some (Timedelta 1 0 0)) (Some (Timedelta 1 0 0)) s"
    by (simp add: query_orbit_for_product_def T0_def T1_def)
next
  fix sel s'
  assume r: "query_orbit_for_product S1Product api (Inr p) (Some product_type)
                      (Some t0_margin) (Some t1_margin) s = (Inr sel, s')"
  have "query_orbit_for_product S1Product api (Inr p) (Some product_type)
           (Some t0_margin) (Some t1_margin) s =
         (case api \<lparr>producttype = product_type, platformserialidentifier = drop 1 (mission p),
                     date = (lo, hi)\<rparr> s of
            (Inl e, s') \<Rightarrow> (Inl e, s')
          | (Inr products, s') \<Rightarrow> (select_orbit products (start_time p) (stop_time p), s'))"
    using assms(1,2) by (simp add: query_orbit_for_product_def query_orbit_call[OF assms(3,4)])
  then obtain products where "select_orbit products (start_time p) (stop_time p) = Inr sel"
    using r by (auto split: prod.splits sum.splits)
  then obtain infos where i:
    "get_validity_info (map (\<lambda>(k, p). identifier p) products) None = Inr infos"
    "\<forall>(k, v) \<in> set sel. (k, v) \<in> set products \<and>
        (\<exists>r \<in> set infos. product_id r = identifier v \<and>
           start_validity r \<le> start_time p \<and> stop_time p \<le> stop_validity r)"
    using select_orbit_covers by blast
  have "\<forall>r \<in> set infos.
     parses_to default_pattern (product_id r) (generation_date r) (start_validity r) (stop_validity r)"
    using loop_results_parse[of default_pattern _ "[]" infos] i(1)
    by (simp add: get_validity_info_def the_pattern_None)
  then show "\<forall>(k, v) \<in> set sel.
               \<exists>gd sv ev. parses_to default_pattern (identifier v) gd sv ev \<and>
                 sv \<le> start_time p \<and> stop_time p \<le> ev"
    using i(2) by fastforce
qed

theorem query_orbit_for_product_widens_witness:
  "query_orbit_for_product (\<lambda>name. Inl (ValueError name))
     (recording_api
        [(1 :: nat, \<lparr>identifier = ''S1A_OPER_20200621T120000_V20200531T225942_20200602T005942''\<rparr>),
         (2, \<lparr>identifier = ''S1A_OPER_20200622T120000_V20200601T225942_20200603T005942''\<rparr>)])
     (Inr \<lparr>start_time = Datetime 2020 6 1 12 0 0 0, stop_time = Datetime 2020 6 1 12 0 25 0,
           mission = ''S1A''\<rparr>)
     (Some ''AUX_POEORB'') None None [] =
   (Inr [(1, \<lparr>identifier = ''S1A_OPER_20200621T120000_V20200531T225942_20200602T005942''\<rparr>)],
    [\<lparr>producttype = ''AUX_POEORB'', platformserialidentifier = ''1A'',
      date = (Datetime 2020 5 31 12 0 0 0, Datetime 2020 6 2 12 0 25 0)\<rparr>])"
proof -
  let ?p = "\<lparr>start_time = Datetime 2020 6 1 12 0 0 0, stop_time = Datetime 2020 6 1 12 0 25 0,
           mission = ''S1A''\<rparr>"
  let ?id1 = "''S1A_OPER_20200621T120000_V20200531T225942_20200602T005942''"
  let ?id2 = "''S1A_OPER_20200622T120000_V20200601T225942_20200603T005942''"
  let ?cat = "[(1 :: nat, \<lparr>identifier = ?id1\<rparr>), (2, \<lparr>identifier = ?id2\<rparr>)]"
  have lo: "dt_sub (start_time ?p) (Timedelta 1 0 0) = Inr (Datetime 2020 5 31 12 0 0 0)"
    by (simp add: dt_sub_def dt_shift_def td_total_def toordinal_def days_before_year_def
        days_before_month_def DAYS_BEFORE_MONTH_def DAYS_IN_MONTH_def is_leap_def ord2ymd_def Let_def)
  have hi: "dt_add (stop_time ?p) (Timedelta 1 0 0) = Inr (Datetime 2020 6 2 12 0 25 0)"
    by (simp add: dt_add_def dt_shift_def td_total_def toordinal_def days_before_year_def
        days_before_month_def DAYS_BEFORE_MONTH_def DAYS_IN_MONTH_def is_leap_def ord2ymd_def Let_def)
  have m: "mission ?p \<in> {''S1A'', ''S1B''}" "''AUX_POEORB'' \<in> {''AUX_POEORB'', ''AUX_RESORB''}"
    by simp_all
  have s: "strptime ''20200621T120000'' = Inr (Datetime 2020 6 21 12 0 0 0)"
    "strptime ''20200531T225942'' = Inr (Datetime 2020 5 31 22 59 42 0)"
    "strptime ''20200602T005942'' = Inr (Datetime 2020 6 2 0 59 42 0)"
    "strptime ''20200622T120000'' = Inr (Datetime 2020 6 22 12 0 0 0)"
    "strptime ''20200601T225942'' = Inr (Datetime 2020 6 1 22 59 42 0)"
    "strptime ''20200603T005942'' = Inr (Datetime 2020 6 3 0 59 42 0)"
    by (simp_all add: strp cls)
  have 1: "parses_to default_pattern ?id1
      (Datetime 2020 6 21 12 0 0 0) (Datetime 2020 5 31 22 59 42 0) (Datetime 2020 6 2 0 59 42 0)"
    using parses_to_identifier[of "''A_OPER''"
        "''20200621T120000''" "''20200531T225942''" "''20200602T005942''" "[]", OF _ _ _ _ _ _ s(1-3)]
    by (simp add: is_stamp_def cls)
  have 2: "parses_to default_pattern ?id2
      (Datetime 2020 6 22 12 0 0 0) (Datetime 2020 6 1 22 59 42 0) (Datetime 2020 6 3 0 59 42 0)"
    using parses_to_identifier[of "''A_OPER''"
        "''20200622T120000''" "''20200601T225942''" "''20200603T005942''" "[]", OF _ _ _ _ _ _ s(4-6)]
    by (simp add: is_stamp_def cls)
  have g: "get_validity_info [?id1, ?id2] None =
     Inr [\<lparr>product_id = ?id1, generation_date = Datetime 2020 6 21 12 0 0 0,
            start_validity = Datetime 2020 5 31 22 59 42 0,
            stop_validity = Datetime 2020 6 2 0 59 42 0\<rparr>,
          \<lparr>product_id = ?id2, generation_date = Datetime 2020 6 22 12 0 0 0,
            start_validity = Datetime 2020 6 1 22 59 42 0,
            stop_validity = Datetime 2020 6 3 0 59 42 0\<rparr>]"
    unfolding get_validity_info_def the_pattern_None loop_step_ok[OF 1] loop_step_ok[OF 2]
    by simp
  have sel: "select_orbit ?cat (start_time ?p) (stop_time ?p) = Inr [(1, \<lparr>identifier = ?id1\<rparr>)]"
    unfolding select_orbit_def
    by (simp add: g lastval_cover_def candidates_def sort_reverse_def del: get_validity_loop.simps)
  let ?f = "query_orbit_for_product (\<lambda>name. Inl (ValueError name)) (recording_api ?cat)
      (Inr ?p) (Some ''AUX_POEORB'')"
  note w = query_orbit_for_product_widens[OF lo hi m,
        of "\<lambda>name. Inl (ValueError name)" "recording_api ?cat" "[]" ?cat "[]"]
  have d: "?f None None [] = ?f (Some (Timedelta 1 0 0)) (Some (Timedelta 1 0 0)) []"
    by (rule w[THEN conjunct2, THEN conjunct2, THEN conjunct2])
  have e: "?f (Some (Timedelta 1 0 0)) (Some (Timedelta 1 0 0)) [] =
      (select_orbit ?cat (start_time ?p) (stop_time ?p),
       [\<lparr>producttype = ''AUX_POEORB'', platformserialidentifier = drop 1 (mission ?p),
         date = (Datetime 2020 5 31 12 0 0 0, Datetime 2020 6 2 12 0 25 0)\<rparr>])"
    unfolding w[THEN conjunct1] by (simp add: recording_api_def)
  show ?thesis unfolding d e sel by simp
qed

end
